theory Spec2Isabelle
  imports Complex_Main "HOL-Library.Signed_Division" "HOL-Library.Multiset" "HOL-Library.Log_Nat"
begin

section \<open>The console report of the code-quality analyzer (pkg/report/report.go)\<close>

text \<open>
  The report layer reads one \<open>AnalysisResult\<close> and prints it. Conventions of this
  embedding:
  \<^item> a Go \<open>float64\<close> is a \<open>real\<close>, and each sum, product and quotient of floats is
    the exact result rounded to the nearest float64 (\<open>round_float64\<close> below);
    comparisons are exact; NaN, the infinities and the sign of zero are not
    represented;
  \<^item> a Go \<open>int\<close> is an \<open>int\<close>; every integer computed here is a loop index, a length or
    a count and stays far inside 64 bits;
  \<^item> a Go \<open>string\<close> is a \<open>string\<close> of bytes; text outside ASCII is written as its UTF-8
    bytes, which is what \<open>strings.Contains\<close> compares;
  \<^item> what a function prints is returned as a value (the style it prints with and the
    data it formats), and the translator of the report is a parameter.
\<close>

subsection \<open>Styles\<close>

text \<open>The package-level colour styles (\<open>var ( titleStyle = ... )\<close>).\<close>

datatype style =
    titleStyle | scoreStyle | goodStyle | warningStyle | dangerStyle | headerStyle
  | sectionStyle | infoStyle | successStyle | detailStyle | metricStyle | fileStyle
  | levelStyle | numberStyle

subsection \<open>Data model\<close>

text \<open>
  Modelled from the spec: the type declarations of package \<open>analyzer\<close> (\<open>MetricResult\<close>,
  \<open>FileAnalysisResult\<close>, \<open>AnalysisResult\<close>) are not among the sources; the fields are
  those of section 3 of the specification, which are also the ones report.go reads.
\<close>

record MetricResult =
  Name :: string
  Weight :: real
  Score :: real
  Description :: string

record FileAnalysisResult =
  FilePath :: string
  FileScore :: real
  Issues :: "string list"

text \<open>
  A slice \<open>[]FileAnalysisResult\<close> is a view of an array in memory: the address of the
  array and the number of elements of the view. Two slices with the same address share
  their elements, and a write through one is seen through the other.
\<close>

type_synonym addr = nat

record slice =
  array :: addr
  len :: nat

text \<open>
  Modelled from the spec: \<open>AnalysisResult\<close> (section 3), whose declaration is in package
  \<open>analyzer\<close> too. \<open>Metrics\<close> is a Go map from the metric's name to its result (the
  loop of \<open>getSortedMetrics\<close> appends its values to a \<open>[]MetricResult\<close>), and
  \<open>FilesAnalyzed\<close> is a slice of \<open>FileAnalysisResult\<close> (\<open>getSortedFiles\<close> appends it to
  one), so its elements live in memory (\<open>arrays\<close> below). The field \<open>Issues\<close> of a file
  is a slice of strings that nothing in the package writes to; it is a list here.
\<close>

record AnalysisResult =
  TotalFiles :: int
  TotalLines :: int
  Metrics :: "string \<rightharpoonup> MetricResult"
  FilesAnalyzed :: slice
  CodeQualityScore :: real

text \<open>
  The memory a report works on: the \<open>AnalysisResult\<close> that \<open>r.result\<close> points to, the
  arrays behind the slices of \<open>FileAnalysisResult\<close>, and the next address the allocator
  hands out (every address from \<open>next_addr\<close> on is unused).
\<close>

record memory =
  result :: AnalysisResult
  arrays :: "addr \<rightharpoonup> FileAnalysisResult list"
  next_addr :: addr

text \<open>The elements seen through a slice.\<close>

definition elements :: "memory \<Rightarrow> slice \<Rightarrow> FileAnalysisResult list" where
  "elements mem s = take (len s) (case arrays mem (array s) of None \<Rightarrow> [] | Some xs \<Rightarrow> xs)"

record ReportOptions =
  Verbose :: bool
  TopFiles :: int
  MaxIssues :: int
  SummaryOnly :: bool

definition DefaultReportOptions :: ReportOptions where
  "DefaultReportOptions = \<lparr>Verbose = False, TopFiles = 3, MaxIssues = 3, SummaryOnly = False\<rparr>"

text \<open>
  One entry of \<open>QualityLevels\<close> (an anonymous struct in the source). Its field
  \<open>Description\<close> holds a translation key; it is named \<open>DescriptionKey\<close> here because
  \<open>MetricResult\<close> has a field \<open>Description\<close> too.
\<close>

record QualityLevel =
  MinScore :: real
  NameKey :: string
  DescriptionKey :: string
  Emoji :: string

definition QualityLevels :: "QualityLevel list" where
  "QualityLevels =
  [\<lparr>MinScore = 0, NameKey = ''level.clean'', DescriptionKey = ''level.clean.description'',
      Emoji = [CHR 0xF0, CHR 0x9F, CHR 0x8C, CHR 0xB1]\<rparr>,
   \<lparr>MinScore = 10, NameKey = ''level.mild'', DescriptionKey = ''level.mild.description'',
      Emoji = [CHR 0xF0, CHR 0x9F, CHR 0x8C, CHR 0xB8]\<rparr>,
   \<lparr>MinScore = 20, NameKey = ''level.moderate'', DescriptionKey = ''level.moderate.description'',
      Emoji = [CHR 0xF0, CHR 0x9F, CHR 0x98, CHR 0x90]\<rparr>,
   \<lparr>MinScore = 30, NameKey = ''level.bad'', DescriptionKey = ''level.bad.description'',
      Emoji = [CHR 0xF0, CHR 0x9F, CHR 0x98, CHR 0xB7]\<rparr>,
   \<lparr>MinScore = 40, NameKey = ''level.terrible'', DescriptionKey = ''level.terrible.description'',
      Emoji = [CHR 0xF0, CHR 0x9F, CHR 0x92, CHR 0xA9]\<rparr>,
   \<lparr>MinScore = 50, NameKey = ''level.disaster'', DescriptionKey = ''level.disaster.description'',
      Emoji = [CHR 0xF0, CHR 0x9F, CHR 0xA4, CHR 0x95]\<rparr>,
   \<lparr>MinScore = 60, NameKey = ''level.disaster.severe'',
      DescriptionKey = ''level.disaster.severe.description'',
      Emoji = [CHR 0xE2, CHR 0x98, CHR 0xA3, CHR 0xEF, CHR 0xB8, CHR 0x8F]\<rparr>,
   \<lparr>MinScore = 70, NameKey = ''level.disaster.very_bad'',
      DescriptionKey = ''level.disaster.very_bad.description'',
      Emoji = [CHR 0xF0, CHR 0x9F, CHR 0xA7, CHR 0x9F]\<rparr>,
   \<lparr>MinScore = 80, NameKey = ''level.disaster.extreme'',
      DescriptionKey = ''level.disaster.extreme.description'',
      Emoji = [CHR 0xE2, CHR 0x98, CHR 0xA2, CHR 0xEF, CHR 0xB8, CHR 0x8F]\<rparr>,
   \<lparr>MinScore = 90, NameKey = ''level.disaster.worst'',
      DescriptionKey = ''level.disaster.worst.description'',
      Emoji = [CHR 0xF0, CHR 0x9F, CHR 0xAA, CHR 0xA6]\<rparr>,
   \<lparr>MinScore = 100, NameKey = ''level.disaster.ultimate'',
      DescriptionKey = ''level.disaster.ultimate.description'',
      Emoji = [CHR 0xF0, CHR 0x9F, CHR 0x91, CHR 0x91, CHR 0xF0, CHR 0x9F, CHR 0x92, CHR 0xA9]\<rparr>]"

subsection \<open>float64 arithmetic\<close>

text \<open>
  A finite float64 is a multiple of a power of two with at most 53 significant bits.
  For \<open>a > 0\<close>, \<open>binade a\<close> is the exponent \<open>e\<close> with \<open>2^e \<le> a < 2^(e+1)\<close>; the floats of
  that binade are the multiples of \<open>2^(e-52)\<close>, and below \<open>2^(-1022)\<close> (the subnormal
  range) the multiples of \<open>2^(-1074)\<close>. \<open>round_float64\<close> is the rounding of IEEE 754
  that Go uses: to the nearest float, a tie to the one with the even significand. A
  result of magnitude \<open>2^1024\<close> or more, which overflows to an infinity in Go, is
  outside this model.
\<close>

definition binade :: "real \<Rightarrow> int" where
  "binade a =
     (if 1 \<le> a then int (floorlog 2 (nat \<lfloor>a\<rfloor>)) - 1
      else - int (floorlog 2 (nat (\<lceil>1 / a\<rceil> - 1))))"

definition pow2 :: "int \<Rightarrow> real" where
  "pow2 k = (if 0 \<le> k then 2 ^ nat k else 1 / 2 ^ nat (- k))"

definition round_half_even :: "real \<Rightarrow> int" where
  "round_half_even m =
     (let f = \<lfloor>m\<rfloor>; d = m - of_int f
      in if d < 1 / 2 then f else if 1 / 2 < d then f + 1 else if even f then f else f + 1)"

definition round_float64 :: "real \<Rightarrow> real" where
  "round_float64 x =
     (if x = 0 then 0
      else
        (let a = \<bar>x\<bar>;
             q = pow2 (max (binade a) (- 1022) - 52);
             r = q * of_int (round_half_even (a / q))
         in if x < 0 then - r else r))"

text \<open>A real is a float64 value when rounding leaves it as it is.\<close>

definition is_float64 :: "real \<Rightarrow> bool" where
  "is_float64 x = (round_float64 x = x)"

text \<open>
  The operators \<open>+\<close>, \<open>*\<close> and \<open>/\<close> on \<open>float64\<close>: each rounds once. (Go allows a
  compiler to fuse \<open>x*y + z\<close> into one operation with a single rounding, which it does
  on some architectures but not on amd64; here every operation rounds on its own.)
\<close>

definition add64 :: "real \<Rightarrow> real \<Rightarrow> real" where
  "add64 x y = round_float64 (x + y)"

definition mul64 :: "real \<Rightarrow> real \<Rightarrow> real" where
  "mul64 x y = round_float64 (x * y)"

definition div64 :: "real \<Rightarrow> real \<Rightarrow> real" where
  "div64 x y = round_float64 (x / y)"

subsection \<open>getQualityLevel\<close>

text \<open>
  \<^verbatim>\<open>level := QualityLevels[0]
  for i := len(QualityLevels) - 1; i >= 0; i-- {
      if score >= QualityLevels[i].MinScore { level = QualityLevels[i]; break }
  }
  return level\<close>
  The second argument of \<open>levelLoop\<close> is \<open>i + 1\<close>, so \<open>0\<close> is the exit \<open>i < 0\<close>.
\<close>

fun levelLoop :: "real \<Rightarrow> nat \<Rightarrow> QualityLevel \<Rightarrow> QualityLevel" where
  "levelLoop score 0 level = level"
| "levelLoop score (Suc i) level =
     (if score \<ge> MinScore (QualityLevels ! i) then QualityLevels ! i
      else levelLoop score i level)"

definition getQualityLevel :: "real \<Rightarrow> QualityLevel" where
  "getQualityLevel score = levelLoop score (length QualityLevels) (QualityLevels ! 0)"

subsection \<open>getScoreComment and printScoreComment\<close>

text \<open>The conversion \<open>int(x)\<close> of a float: the fraction is dropped, towards zero.\<close>

definition truncate_int :: "real \<Rightarrow> int" where
  "truncate_int x = (if 0 \<le> x then \<lfloor>x\<rfloor> else \<lceil>x\<rceil>)"

text \<open>The verb \<open>%d\<close> of \<open>fmt.Sprintf\<close>: decimal digits, a minus sign before a negative number.\<close>

definition digit :: "nat \<Rightarrow> char" where
  "digit d = ''0123456789'' ! d"

fun formatNat :: "nat \<Rightarrow> string" where
  "formatNat n =
     (if n < 10 then [digit n]
      else formatNat (n div 10) @ [digit (n mod 10)])"

declare formatNat.simps [simp del]

definition formatInt :: "int \<Rightarrow> string" where
  "formatInt i = (if i < 0 then CHR ''-'' # formatNat (nat (- i)) else formatNat (nat i))"

text \<open>
  \<^verbatim>\<open>score = score * 100
  scoreRange := int(score) / 10 * 10
  if scoreRange > 90 { scoreRange = 90 }
  commentKey := fmt.Sprintf("score.comment.%d", scoreRange)
  return r.translator.Translate(commentKey)\<close>
  The product is a product of floats; Go's integer division truncates towards zero:
  \<open>sdiv\<close>.
\<close>

definition getScoreComment :: "(string \<Rightarrow> string) \<Rightarrow> real \<Rightarrow> string" where
  "getScoreComment Translate score0 =
     (let score = mul64 score0 100;
          scoreRange = truncate_int score sdiv 10 * 10;
          scoreRange = (if scoreRange > 90 then 90 else scoreRange);
          commentKey = ''score.comment.'' @ formatInt scoreRange
      in Translate commentKey)"

text \<open>
  \<^verbatim>\<open>comment := r.getScoreComment(score)
  switch {
  case score < 30: goodStyle.Printf("%s", comment)
  case score < 70: warningStyle.Printf("%s", comment)
  default:         dangerStyle.Printf("%s", comment)
  }\<close>
  The result is what is printed: the style and the text.
\<close>

definition printScoreComment :: "(string \<Rightarrow> string) \<Rightarrow> real \<Rightarrow> style \<times> string" where
  "printScoreComment Translate score =
     (let comment = getScoreComment Translate score
      in if score < 30 then (goodStyle, comment)
         else if score < 70 then (warningStyle, comment)
         else (dangerStyle, comment))"

subsection \<open>Library functions on strings\<close>

text \<open>
  \<open>strings.Contains(s, substr)\<close>: \<open>substr\<close> occurs in \<open>s\<close> as a run of consecutive bytes
  (the empty string occurs in every string).
\<close>

fun HasPrefix :: "string \<Rightarrow> string \<Rightarrow> bool" where
  "HasPrefix s [] = True"
| "HasPrefix [] (p # ps) = False"
| "HasPrefix (c # cs) (p # ps) = (c = p \<and> HasPrefix cs ps)"

fun Contains :: "string \<Rightarrow> string \<Rightarrow> bool" where
  "Contains [] substr = (substr = [])"
| "Contains (c # cs) substr = (HasPrefix (c # cs) substr \<or> Contains cs substr)"

text \<open>
  \<open>strings.ToLower\<close> maps every Unicode letter to its lower case, by tables of the Go
  library. The functions below take it as the parameter \<open>ToLower\<close>, and every theorem
  about them holds for each function \<open>ToLower\<close>. On a string of ASCII bytes the library
  function is \<open>ToLowerASCII\<close>, which the examples use.
\<close>

definition lowerByte :: "char \<Rightarrow> char" where
  "lowerByte c =
     (case map_of (zip ''ABCDEFGHIJKLMNOPQRSTUVWXYZ'' ''abcdefghijklmnopqrstuvwxyz'') c of
        None \<Rightarrow> c
      | Some l \<Rightarrow> l)"

definition ToLowerASCII :: "string \<Rightarrow> string" where
  "ToLowerASCII s = map lowerByte s"

subsection \<open>categorizeIssues\<close>

text \<open>The statement \<open>categories[key]++\<close> on a \<open>map[string]int\<close>; a missing key reads as 0.\<close>

definition increment :: "(string \<rightharpoonup> int) \<Rightarrow> string \<Rightarrow> (string \<rightharpoonup> int)" where
  "increment categories key =
     categories(key \<mapsto> (case categories key of None \<Rightarrow> 0 | Some n \<Rightarrow> n) + 1)"

text \<open>The map literal that \<open>categorizeIssues\<close> starts from.\<close>

definition initialCategories :: "string \<rightharpoonup> int" where
  "initialCategories =
     [''complexity'' \<mapsto> 0, ''comment'' \<mapsto> 0, ''naming'' \<mapsto> 0, ''structure'' \<mapsto> 0,
      ''duplication'' \<mapsto> 0, ''error'' \<mapsto> 0, ''other'' \<mapsto> 0]"

text \<open>
  The body of the loop over the issues: \<open>lowerIssue := strings.ToLower(issue)\<close> and the
  \<open>switch\<close>, whose cases are tried in order. The keywords outside ASCII are, in the
  order of the source, the UTF-8 bytes of the Chinese words for complexity, comment,
  naming, structure, nesting, duplication and error.
\<close>

definition categorizeIssue ::
  "(string \<Rightarrow> string) \<Rightarrow> (string \<rightharpoonup> int) \<Rightarrow> string \<Rightarrow> (string \<rightharpoonup> int)" where
  "categorizeIssue ToLower categories issue =
     (let lowerIssue = ToLower issue in
      if Contains lowerIssue
           [CHR 0xE5, CHR 0xA4, CHR 0x8D, CHR 0xE6, CHR 0x9D, CHR 0x82, CHR 0xE5, CHR 0xBA, CHR 0xA6]
         \<or> Contains lowerIssue ''complexity''
      then increment categories ''complexity''
      else if Contains lowerIssue [CHR 0xE6, CHR 0xB3, CHR 0xA8, CHR 0xE9, CHR 0x87, CHR 0x8A]
         \<or> Contains lowerIssue ''comment''
      then increment categories ''comment''
      else if Contains lowerIssue [CHR 0xE5, CHR 0x91, CHR 0xBD, CHR 0xE5, CHR 0x90, CHR 0x8D]
         \<or> Contains lowerIssue ''name'' \<or> Contains lowerIssue ''naming''
      then increment categories ''naming''
      else if Contains lowerIssue [CHR 0xE7, CHR 0xBB, CHR 0x93, CHR 0xE6, CHR 0x9E, CHR 0x84]
         \<or> Contains lowerIssue [CHR 0xE5, CHR 0xB5, CHR 0x8C, CHR 0xE5, CHR 0xA5, CHR 0x97]
         \<or> Contains lowerIssue ''structure'' \<or> Contains lowerIssue ''nest''
      then increment categories ''structure''
      else if Contains lowerIssue [CHR 0xE9, CHR 0x87, CHR 0x8D, CHR 0xE5, CHR 0xA4, CHR 0x8D]
         \<or> Contains lowerIssue ''duplication''
      then increment categories ''duplication''
      else if Contains lowerIssue [CHR 0xE9, CHR 0x94, CHR 0x99, CHR 0xE8, CHR 0xAF, CHR 0xAF]
         \<or> Contains lowerIssue ''error''
      then increment categories ''error''
      else increment categories ''other'')"

text \<open>
  \<^verbatim>\<open>for category, count := range categories {
      if count == 0 { delete(categories, category) }
  }\<close>
  Every entry of the map is visited once, in an order the language leaves open; an entry
  is removed exactly when its count is 0.
\<close>

definition deleteZeroCounts :: "(string \<rightharpoonup> int) \<Rightarrow> (string \<rightharpoonup> int)" where
  "deleteZeroCounts categories =
     (\<lambda>category. case categories category of
        None \<Rightarrow> None
      | Some cnt \<Rightarrow> if cnt = 0 then None else Some cnt)"

definition categorizeIssues :: "(string \<Rightarrow> string) \<Rightarrow> string list \<Rightarrow> (string \<rightharpoonup> int)" where
  "categorizeIssues ToLower issues =
     deleteZeroCounts (foldl (categorizeIssue ToLower) initialCategories issues)"

subsection \<open>getIssueIconAndColor\<close>

text \<open>The colour attributes given to \<open>color.New\<close> for the issue categories.\<close>

datatype color_attribute = FgMagenta | FgBlue | FgCyan | FgYellow | FgRed | FgHiRed | FgHiYellow

text \<open>
  The same \<open>switch\<close>, written a second time in the source; each case returns an icon
  (an emoji followed by one or two spaces, as UTF-8 bytes) and a colour.
\<close>

definition getIssueIconAndColor :: "(string \<Rightarrow> string) \<Rightarrow> string \<Rightarrow> string \<times> color_attribute" where
  "getIssueIconAndColor ToLower issue =
     (let lowerIssue = ToLower issue in
      if Contains lowerIssue
           [CHR 0xE5, CHR 0xA4, CHR 0x8D, CHR 0xE6, CHR 0x9D, CHR 0x82, CHR 0xE5, CHR 0xBA, CHR 0xA6]
         \<or> Contains lowerIssue ''complexity''
      then ([CHR 0xF0, CHR 0x9F, CHR 0x94, CHR 0x84, CHR 0x20], FgMagenta)
      else if Contains lowerIssue [CHR 0xE6, CHR 0xB3, CHR 0xA8, CHR 0xE9, CHR 0x87, CHR 0x8A]
         \<or> Contains lowerIssue ''comment''
      then ([CHR 0xF0, CHR 0x9F, CHR 0x93, CHR 0x9D, CHR 0x20], FgBlue)
      else if Contains lowerIssue [CHR 0xE5, CHR 0x91, CHR 0xBD, CHR 0xE5, CHR 0x90, CHR 0x8D]
         \<or> Contains lowerIssue ''name'' \<or> Contains lowerIssue ''naming''
      then ([CHR 0xF0, CHR 0x9F, CHR 0x8F, CHR 0xB7, CHR 0xEF, CHR 0xB8, CHR 0x8F, CHR 0x20, CHR 0x20],
            FgCyan)
      else if Contains lowerIssue [CHR 0xE7, CHR 0xBB, CHR 0x93, CHR 0xE6, CHR 0x9E, CHR 0x84]
         \<or> Contains lowerIssue [CHR 0xE5, CHR 0xB5, CHR 0x8C, CHR 0xE5, CHR 0xA5, CHR 0x97]
         \<or> Contains lowerIssue ''structure'' \<or> Contains lowerIssue ''nest''
      then ([CHR 0xF0, CHR 0x9F, CHR 0x8F, CHR 0x97, CHR 0xEF, CHR 0xB8, CHR 0x8F, CHR 0x20, CHR 0x20],
            FgYellow)
      else if Contains lowerIssue [CHR 0xE9, CHR 0x87, CHR 0x8D, CHR 0xE5, CHR 0xA4, CHR 0x8D]
         \<or> Contains lowerIssue ''duplication''
      then ([CHR 0xF0, CHR 0x9F, CHR 0x93, CHR 0x8B, CHR 0x20], FgRed)
      else if Contains lowerIssue [CHR 0xE9, CHR 0x94, CHR 0x99, CHR 0xE8, CHR 0xAF, CHR 0xAF]
         \<or> Contains lowerIssue ''error''
      then ([CHR 0xE2, CHR 0x9D, CHR 0x8C, CHR 0x20], FgHiRed)
      else ([CHR 0xE2, CHR 0x9A, CHR 0xA0, CHR 0xEF, CHR 0xB8, CHR 0x8F, CHR 0x20, CHR 0x20],
            FgHiYellow))"

text \<open>
  The table \<open>categoryInfo\<close> of \<open>printTopIssues\<close> and \<open>printAllFiles\<close> (the same literal in
  both): the colour and the icon the category summary is printed with.
\<close>

definition categoryInfo :: "string \<rightharpoonup> color_attribute \<times> string" where
  "categoryInfo =
     [''complexity'' \<mapsto> (FgMagenta, [CHR 0xF0, CHR 0x9F, CHR 0x94, CHR 0x84, CHR 0x20]),
      ''comment'' \<mapsto> (FgBlue, [CHR 0xF0, CHR 0x9F, CHR 0x93, CHR 0x9D, CHR 0x20]),
      ''naming'' \<mapsto>
        (FgCyan, [CHR 0xF0, CHR 0x9F, CHR 0x8F, CHR 0xB7, CHR 0xEF, CHR 0xB8, CHR 0x8F, CHR 0x20, CHR 0x20]),
      ''structure'' \<mapsto>
        (FgYellow, [CHR 0xF0, CHR 0x9F, CHR 0x8F, CHR 0x97, CHR 0xEF, CHR 0xB8, CHR 0x8F, CHR 0x20, CHR 0x20]),
      ''duplication'' \<mapsto> (FgRed, [CHR 0xF0, CHR 0x9F, CHR 0x93, CHR 0x8B, CHR 0x20]),
      ''error'' \<mapsto> (FgHiRed, [CHR 0xE2, CHR 0x9D, CHR 0x8C, CHR 0x20]),
      ''other'' \<mapsto>
        (FgHiYellow, [CHR 0xE2, CHR 0x9A, CHR 0xA0, CHR 0xEF, CHR 0xB8, CHR 0x8F, CHR 0x20, CHR 0x20])]"

text \<open>The display order of the categories (\<open>categoryOrder\<close>).\<close>

definition categoryOrder :: "string list" where
  "categoryOrder =
     [''complexity'', ''comment'', ''naming'', ''structure'', ''duplication'', ''error'', ''other'']"

subsection \<open>Library functions on numbers and slices\<close>

text \<open>
  \<open>math.Round\<close>: the nearest integer, a half rounded away from zero. It is exact: the
  integer nearest to a float64 is a float64.
\<close>

definition math_Round :: "real \<Rightarrow> real" where
  "math_Round x = (if x < 0 then - of_int \<lfloor>- x + 1 / 2\<rfloor> else of_int \<lfloor>x + 1 / 2\<rfloor>)"

text \<open>
  A quotient whose divisor is a variable is written with \<open>divide_checked\<close>, which
  records a zero divisor; a quotient by the literal 100 is written \<open>div64 _ 100\<close>.
\<close>

datatype fault = DivisionByZero

definition divide_checked :: "real \<Rightarrow> real \<Rightarrow> fault + real" where
  "divide_checked x y = (if y = 0 then Inl DivisionByZero else Inr (div64 x y))"

text \<open>
  \<open>sort.Slice(x, less)\<close> reorders the elements of \<open>x\<close> in place. The library promises a
  permutation ordered by \<open>less\<close> and leaves open the order of elements neither of which
  is less than the other. For slices of up to 12 elements it runs the insertion sort
  below (longer slices are sorted by a quicksort with the same promise):
  \<^verbatim>\<open>for i := a + 1; i < b; i++ {
      for j := i; j > a && less(data[j], data[j-1]); j-- { swap(data[j], data[j-1]) }
  }\<close>
  \<open>sink less_fn x below\<close> is the inner loop (\<open>less_fn\<close> is the callback \<open>less\<close>): \<open>x\<close> is the element \<open>data[j]\<close> on its way
  down, \<open>below\<close> the elements before it, nearest first.
\<close>

fun sink :: "('a \<Rightarrow> 'a \<Rightarrow> bool) \<Rightarrow> 'a \<Rightarrow> 'a list \<Rightarrow> 'a list" where
  "sink less_fn x [] = [x]"
| "sink less_fn x (y # below) = (if less_fn x y then y # sink less_fn x below else x # y # below)"

definition insertionSort :: "('a \<Rightarrow> 'a \<Rightarrow> bool) \<Rightarrow> 'a list \<Rightarrow> 'a list" where
  "insertionSort less_fn xs = rev (foldl (\<lambda>below x. sink less_fn x below) [] xs)"

text \<open>The call on a slice of files: the elements of the view are reordered in its array.\<close>

definition sort_Slice ::
  "slice \<Rightarrow> (FileAnalysisResult \<Rightarrow> FileAnalysisResult \<Rightarrow> bool) \<Rightarrow> memory \<Rightarrow> memory" where
  "sort_Slice s less_fn mem =
     (case arrays mem (array s) of
        None \<Rightarrow> mem
      | Some xs \<Rightarrow>
          mem\<lparr>arrays := (arrays mem)(array s \<mapsto>
                 insertionSort less_fn (take (len s) xs) @ drop (len s) xs)\<rparr>)"

text \<open>
  \<open>append([]FileAnalysisResult{}, xs...)\<close>: the empty literal has no room, so the
  elements are copied into a new array. (For an empty \<open>xs\<close> Go returns the empty
  literal itself; here it gets a new array with no element, which changes nothing that
  can be read.)
\<close>

definition append_to_empty :: "FileAnalysisResult list \<Rightarrow> memory \<Rightarrow> slice \<times> memory" where
  "append_to_empty xs mem =
     (let a = next_addr mem
      in (\<lparr>array = a, len = length xs\<rparr>,
          mem\<lparr>arrays := (arrays mem)(a \<mapsto> xs), next_addr := Suc a\<rparr>))"

subsection \<open>getSortedMetrics and getSortedFiles\<close>

text \<open>
  \<^verbatim>\<open>var metrics []analyzer.MetricResult
  for _, m := range r.result.Metrics { metrics = append(metrics, m) }
  sort.Slice(metrics, func(i, j int) bool { return metrics[i].Score < metrics[j].Score })
  return metrics\<close>
  A \<open>range\<close> over a map visits every key once, in an order that Go leaves open and
  that may differ from one loop to the next: \<open>order\<close> is the order of this loop, and
  \<open>range_order\<close> says that it is one the language allows. The slice \<open>metrics\<close> is local
  and holds copies of the map's values, so it is a list here.
\<close>

definition range_order :: "('k \<rightharpoonup> 'v) \<Rightarrow> 'k list \<Rightarrow> bool" where
  "range_order m order = (distinct order \<and> set order = dom m)"

definition getSortedMetrics :: "AnalysisResult \<Rightarrow> string list \<Rightarrow> MetricResult list" where
  "getSortedMetrics r order =
     insertionSort (\<lambda>a b. Score a < Score b) (List.map_filter (Metrics r) order)"

text \<open>
  \<^verbatim>\<open>worstFiles := append([]analyzer.FileAnalysisResult{}, r.result.FilesAnalyzed...)
  sort.Slice(worstFiles, func(i, j int) bool {
      return worstFiles[i].FileScore > worstFiles[j].FileScore })
  return worstFiles\<close>
\<close>

definition getSortedFiles :: "memory \<Rightarrow> slice \<times> memory" where
  "getSortedFiles mem =
     (let (worstFiles, mem1) =
            append_to_empty (elements mem (FilesAnalyzed (result mem))) mem;
          mem2 = sort_Slice worstFiles (\<lambda>a b. FileScore a > FileScore b) mem1
      in (worstFiles, mem2))"

subsection \<open>printMetricItems\<close>

text \<open>
  What \<open>printMetricItems\<close> prints: one line for each metric (the style of its status
  mark, \<open>goodStyle\<close> with a tick, \<open>warningStyle\<close> with an exclamation mark or
  \<open>dangerStyle\<close> with a cross, its name and its score in percent), then the line of
  the score calculation if there is one: the terms \<open>score\<times>weight\<close>, the total weight and
  the overall score. The comment of \<open>getMetricComment\<close> at the end of a metric's line
  and the column widths are left out.
\<close>

record metric_line =
  line_style :: style
  line_name :: string
  line_score :: real

record score_calc =
  calc_terms :: "(real \<times> real) list"
  calc_total :: real
  calc_overall :: real

record metric_items =
  metric_lines :: "metric_line list"
  calculation :: "score_calc option"

definition metricLine :: "MetricResult \<Rightarrow> metric_line" where
  "metricLine m =
     (let scorePercentage = div64 (math_Round (mul64 (Score m) 10000)) 100
      in \<lparr>line_style =
            (if scorePercentage < 30 then goodStyle
             else if scorePercentage < 70 then warningStyle
             else dangerStyle),
          line_name = Name m,
          line_score = scorePercentage\<rparr>)"

text \<open>
  \<^verbatim>\<open>metrics := r.getSortedMetrics()
  var totalWeight, weightedScore float64
  for _, m := range metrics {
      totalWeight += m.Weight
      weightedScore += m.Score * m.Weight
  }
  for _, m := range metrics { ... one line ... }
  if totalWeight > 0 {
      ... the terms ...
      overallScore := math.Round(weightedScore/totalWeight*10000) / 100
      infoStyle.Printf(") \<div> %.2f = %.2f\n\n", totalWeight, overallScore)
  }\<close>
\<close>

definition printMetricItems :: "AnalysisResult \<Rightarrow> string list \<Rightarrow> fault + metric_items" where
  "printMetricItems r order =
     (let metrics = getSortedMetrics r order;
          totalWeight = foldl (\<lambda>t m. add64 t (Weight m)) 0 metrics;
          weightedScore = foldl (\<lambda>w m. add64 w (mul64 (Score m) (Weight m))) 0 metrics;
          lines = map metricLine metrics
      in if totalWeight > 0 then
           (case divide_checked weightedScore totalWeight of
              Inl e \<Rightarrow> Inl e
            | Inr q \<Rightarrow>
                Inr \<lparr>metric_lines = lines,
                     calculation = Some
                       \<lparr>calc_terms =
                          map (\<lambda>m. (div64 (math_Round (mul64 (Score m) 10000)) 100, Weight m))
                            metrics,
                        calc_total = totalWeight,
                        calc_overall = div64 (math_Round (mul64 q 10000)) 100\<rparr>\<rparr>)
         else Inr \<lparr>metric_lines = lines, calculation = None\<rparr>)"

subsection \<open>The list of files\<close>

text \<open>The package's own \<open>min\<close> on integers.\<close>

definition min_int :: "int \<Rightarrow> int \<Rightarrow> int" where
  "min_int a b = (if a < b then a else b)"

text \<open>
  \<^verbatim>\<open>switch {
  case score > 0.7: return dangerStyle
  case score > 0.3: return warningStyle
  default:          return goodStyle
  }\<close>
  The constants are converted to \<open>float64\<close>, which has no value 0.7 or 0.3.
\<close>

definition getScoreColor :: "real \<Rightarrow> style" where
  "getScoreColor score =
     (if score > round_float64 (7 / 10) then dangerStyle
      else if score > round_float64 (3 / 10) then warningStyle
      else goodStyle)"

text \<open>\<open>strings.Split(path, "/")\<close> and \<open>strings.Join(parts, "/")\<close>.\<close>

fun Split_slash :: "string \<Rightarrow> string list" where
  "Split_slash [] = [[]]"
| "Split_slash (c # cs) =
     (if c = CHR ''/'' then [] # Split_slash cs
      else (case Split_slash cs of [] \<Rightarrow> [[c]] | part # parts \<Rightarrow> (c # part) # parts))"

fun Join_slash :: "string list \<Rightarrow> string" where
  "Join_slash [] = []"
| "Join_slash [part] = part"
| "Join_slash (part # parts) = part @ CHR ''/'' # Join_slash parts"

definition shortenPath :: "string \<Rightarrow> string" where
  "shortenPath path =
     (let parts = Split_slash path
      in if length parts \<le> 4 then path
         else ''./'' @ Join_slash (drop (length parts - 3) parts))"

text \<open>
  What is printed for one file, in \<open>printTopIssues\<close> and in \<open>printAllFiles\<close> alike: the
  shortened path, the style and the value of the score in percent, the categories
  that \<open>categorizeIssues\<close> counted (in the order of \<open>categoryOrder\<close>), the first
  \<open>maxIssues\<close> issues, each with its icon and colour, and the number of issues left
  out when the line about more issues is printed. The two functions differ in how many
  files and issues they show.
\<close>

record file_entry =
  entry_path :: string
  entry_style :: style
  entry_score :: real
  entry_categories :: "(string \<times> int) list"
  entry_issues :: "((string \<times> color_attribute) \<times> string) list"
  entry_more :: "int option"

definition fileEntry ::
  "(string \<Rightarrow> string) \<Rightarrow> ReportOptions \<Rightarrow> int \<Rightarrow> FileAnalysisResult \<Rightarrow> file_entry" where
  "fileEntry ToLower options maxIssues f =
     (let issuesByCategory = categorizeIssues ToLower (Issues f)
      in \<lparr>entry_path = shortenPath (FilePath f),
          entry_style = getScoreColor (FileScore f),
          entry_score = div64 (math_Round (mul64 (FileScore f) 10000)) 100,
          entry_categories =
            List.map_filter (\<lambda>category. map_option (Pair category) (issuesByCategory category))
              categoryOrder,
          entry_issues =
            map (\<lambda>issue. (getIssueIconAndColor ToLower issue, issue))
              (take (nat maxIssues) (Issues f)),
          entry_more =
            (if length (Issues f) \<noteq> 0 \<and> \<not> Verbose options \<and> int (length (Issues f)) > maxIssues
             then Some (int (length (Issues f)) - maxIssues) else None)\<rparr>)"

datatype file_section = NoFiles | Files "file_entry list"

text \<open>
  \<^verbatim>\<open>allFiles := r.getSortedFiles()
  if len(allFiles) == 0 { ...; return }
  maxFiles := min(options.TopFiles, len(allFiles))
  for i := 0; i < maxFiles; i++ {
      f := allFiles[i]
      ...
      maxIssues := min(options.MaxIssues, len(f.Issues))
      ...
  }\<close>
\<close>

definition printTopIssues ::
  "(string \<Rightarrow> string) \<Rightarrow> ReportOptions \<Rightarrow> memory \<Rightarrow> file_section \<times> memory" where
  "printTopIssues ToLower options mem =
     (let (allFiles, mem1) = getSortedFiles mem
      in if len allFiles = 0 then (NoFiles, mem1)
         else
           (let maxFiles = min_int (TopFiles options) (int (len allFiles))
            in (Files (map (\<lambda>f. fileEntry ToLower options
                                  (min_int (MaxIssues options) (int (length (Issues f)))) f)
                         (take (nat maxFiles) (elements mem1 allFiles))),
                mem1)))"

text \<open>
  \<^verbatim>\<open>files := r.getSortedFiles()
  if len(files) == 0 { ...; return }
  maxFilesToShow := len(files)
  if !options.Verbose && options.TopFiles > 0 && options.TopFiles < maxFilesToShow {
      maxFilesToShow = options.TopFiles
  }
  for i, f := range files[:maxFilesToShow] {
      ...
      maxIssues := len(f.Issues)
      if !options.Verbose { maxIssues = min(options.MaxIssues, maxIssues) }
      ...
  }\<close>
\<close>

definition printAllFiles ::
  "(string \<Rightarrow> string) \<Rightarrow> ReportOptions \<Rightarrow> memory \<Rightarrow> file_section \<times> memory" where
  "printAllFiles ToLower options mem =
     (let (files, mem1) = getSortedFiles mem
      in if len files = 0 then (NoFiles, mem1)
         else
           (let maxFilesToShow =
                  (if \<not> Verbose options \<and> TopFiles options > 0
                      \<and> TopFiles options < int (len files)
                   then TopFiles options else int (len files))
            in (Files (map (\<lambda>f. fileEntry ToLower options
                                  (if \<not> Verbose options
                                   then min_int (MaxIssues options) (int (length (Issues f)))
                                   else int (length (Issues f))) f)
                         (take (nat maxFilesToShow) (elements mem1 files))),
                mem1)))"

subsection \<open>printSummary and printVerboseInfo\<close>

text \<open>The advice at the end: its style and its text.\<close>

definition printSummary :: "(string \<Rightarrow> string) \<Rightarrow> QualityLevel \<Rightarrow> style \<times> string" where
  "printSummary Translate level =
     (if MinScore level < 30 then (successStyle, Translate ''advice.good'')
      else if MinScore level < 60 then (warningStyle, Translate ''advice.moderate'')
      else (dangerStyle, Translate ''advice.bad''))"

text \<open>
  \<^verbatim>\<open>total := 0
  for _, file := range r.result.FilesAnalyzed { total += len(file.Issues) }
  return total\<close>
\<close>

definition getTotalIssues :: "memory \<Rightarrow> int" where
  "getTotalIssues mem =
     foldl (\<lambda>total file. total + int (length (Issues file))) 0
       (elements mem (FilesAnalyzed (result mem)))"

text \<open>
  The statistics of the verbose report: the three totals, and for each metric its
  name, weight, description, the style of its score and the score in percent.
\<close>

record verbose_info =
  info_files :: int
  info_lines :: int
  info_issues :: int
  info_metrics :: "(string \<times> real \<times> string \<times> style \<times> real) list"

definition printVerboseInfo :: "memory \<Rightarrow> string list \<Rightarrow> verbose_info" where
  "printVerboseInfo mem order =
     \<lparr>info_files = TotalFiles (result mem),
      info_lines = TotalLines (result mem),
      info_issues = getTotalIssues mem,
      info_metrics =
        map (\<lambda>metric. (Name metric, Weight metric, Description metric,
                        getScoreColor (Score metric),
                        div64 (math_Round (mul64 (Score metric) 10000)) 100))
          (getSortedMetrics (result mem) order)\<rparr>"

subsection \<open>GenerateConsoleReport\<close>

text \<open>
  What the report prints, part by part: the level (its emoji frames the title, its
  name and description follow the score), the overall score in percent, the comment on
  it, the metrics, the files, the advice and the verbose statistics.
\<close>

record console_report =
  report_level :: QualityLevel
  report_score :: real
  report_comment :: "style \<times> string"
  report_metrics :: "metric_items option"
  report_files :: "file_section option"
  report_advice :: "style \<times> string"
  report_verbose :: "verbose_info option"

text \<open>
  \<^verbatim>\<open>if options == nil { options = DefaultReportOptions }
  score := r.result.CodeQualityScore
  level := r.getQualityLevel(score)
  ... math.Round(score*10000)/100 ...
  r.printScoreComment(score)
  ...
  if !options.SummaryOnly {
      r.printMetricItems()
      if options.Verbose { r.printAllFiles(options) } else { r.printTopIssues(options) }
  }
  r.printSummary(level)
  if options.Verbose { r.printVerboseInfo() }\<close>
  \<open>order1\<close> and \<open>order2\<close> are the orders in which the two calls of \<open>getSortedMetrics\<close>
  (in \<open>printMetricItems\<close> and in \<open>printVerboseInfo\<close>) range over the map. The result is
  the report and the memory the call leaves behind.
\<close>

definition GenerateConsoleReport ::
  "(string \<Rightarrow> string) \<Rightarrow> (string \<Rightarrow> string) \<Rightarrow> string list \<Rightarrow> string list
     \<Rightarrow> ReportOptions option \<Rightarrow> memory \<Rightarrow> fault + console_report \<times> memory" where
  "GenerateConsoleReport Translate ToLower order1 order2 options0 mem =
     (let options = (case options0 of None \<Rightarrow> DefaultReportOptions | Some given \<Rightarrow> given);
          score = CodeQualityScore (result mem);
          level = getQualityLevel score;
          header = \<lparr>report_level = level,
                    report_score = div64 (math_Round (mul64 score 10000)) 100,
                    report_comment = printScoreComment Translate score,
                    report_metrics = None,
                    report_files = None,
                    report_advice = printSummary Translate level,
                    report_verbose = None\<rparr>
      in if \<not> SummaryOnly options then
           (case printMetricItems (result mem) order1 of
              Inl e \<Rightarrow> Inl e
            | Inr items \<Rightarrow>
                (let (files, mem1) =
                       (if Verbose options then printAllFiles ToLower options mem
                        else printTopIssues ToLower options mem)
                 in Inr (header\<lparr>report_metrics := Some items,
                                 report_files := Some files,
                                 report_verbose :=
                                   (if Verbose options then Some (printVerboseInfo mem1 order2)
                                    else None)\<rparr>,
                         mem1)))
         else
           Inr (header\<lparr>report_verbose :=
                          (if Verbose options then Some (printVerboseInfo mem order2) else None)\<rparr>,
                mem))"

subsection \<open>Notions used in the statements\<close>

text \<open>
  The keywords of the six named categories, in the order the \<open>switch\<close> tries them; the
  ones outside ASCII are the UTF-8 bytes of the Chinese keywords.
\<close>

definition categoryKeywords :: "string list" where
  "categoryKeywords =
     [[CHR 0xE5, CHR 0xA4, CHR 0x8D, CHR 0xE6, CHR 0x9D, CHR 0x82, CHR 0xE5, CHR 0xBA, CHR 0xA6],
      ''complexity'',
      [CHR 0xE6, CHR 0xB3, CHR 0xA8, CHR 0xE9, CHR 0x87, CHR 0x8A], ''comment'',
      [CHR 0xE5, CHR 0x91, CHR 0xBD, CHR 0xE5, CHR 0x90, CHR 0x8D], ''name'', ''naming'',
      [CHR 0xE7, CHR 0xBB, CHR 0x93, CHR 0xE6, CHR 0x9E, CHR 0x84],
      [CHR 0xE5, CHR 0xB5, CHR 0x8C, CHR 0xE5, CHR 0xA5, CHR 0x97], ''structure'', ''nest'',
      [CHR 0xE9, CHR 0x87, CHR 0x8D, CHR 0xE5, CHR 0xA4, CHR 0x8D], ''duplication'',
      [CHR 0xE9, CHR 0x94, CHR 0x99, CHR 0xE8, CHR 0xAF, CHR 0xAF], ''error'']"

text \<open>
  How many issues of a list \<open>getIssueIconAndColor\<close> prints with the icon and the colour
  that \<open>categoryInfo\<close> gives the category \<open>key\<close>.
\<close>

definition countShown :: "(string \<Rightarrow> string) \<Rightarrow> string \<Rightarrow> string list \<Rightarrow> nat" where
  "countShown ToLower key issues =
     length (filter (\<lambda>issue. categoryInfo key = Some (prod.swap (getIssueIconAndColor ToLower issue)))
       issues)"

text \<open>How many issues of a list contain no keyword after \<open>ToLower\<close>.\<close>

definition countUnmatched :: "(string \<Rightarrow> string) \<Rightarrow> string list \<Rightarrow> nat" where
  "countUnmatched ToLower issues =
     length (filter (\<lambda>issue. \<forall>kw \<in> set categoryKeywords. \<not> Contains (ToLower issue) kw) issues)"

text \<open>
  The two sums of the loop of \<open>printMetricItems\<close>, accumulated in float64 over a list
  of metrics from its first element to its last: \<open>totalWeight\<close> and \<open>weightedScore\<close>.
\<close>

definition accumulated_weight :: "MetricResult list \<Rightarrow> real" where
  "accumulated_weight metrics = foldl (\<lambda>t m. add64 t (Weight m)) 0 metrics"

definition accumulated_score :: "MetricResult list \<Rightarrow> real" where
  "accumulated_score metrics = foldl (\<lambda>w m. add64 w (mul64 (Score m) (Weight m))) 0 metrics"



text \<open>The sum of the counts of a category map.\<close>

definition total :: "(string \<rightharpoonup> int) \<Rightarrow> int" where
  "total m = (\<Sum>k \<in> dom m. the (m k))"

text \<open>The invariant of the loop of \<open>categorizeIssues\<close>: the seven keys, no negative count.\<close>

definition counts_ok :: "(string \<rightharpoonup> int) \<Rightarrow> bool" where
  "counts_ok m = (dom m = set categoryOrder \<and> (\<forall>k n. m k = Some n \<longrightarrow> 0 \<le> n))"

text \<open>
  A slice is allocated when it is empty or its array is one the allocator has handed
  out: every slice a Go program can hold is.
\<close>

definition allocated :: "memory \<Rightarrow> slice \<Rightarrow> bool" where
  "allocated mem s = (len s = 0 \<or> array s < next_addr mem)"

text \<open>
  \<open>mem'\<close> leaves \<open>mem\<close> untouched: the \<open>AnalysisResult\<close> is the same, and so is every
  array that existed in \<open>mem\<close>.
\<close>

definition untouched :: "memory \<Rightarrow> memory \<Rightarrow> bool" where
  "untouched mem mem' =
     (result mem' = result mem \<and> (\<forall>a. a < next_addr mem \<longrightarrow> arrays mem' a = arrays mem a))"

subsection \<open>An example\<close>

text \<open>
  Three metrics with the weights 1, 2, 1 and the scores 0.125, 0.5, 0.875, whose
  weighted aggregate is \<open>2 / 4 = 0.5\<close>, and two files, the better one first. All the
  numbers are float64 values.
\<close>

definition example_metrics :: "string \<rightharpoonup> MetricResult" where
  "example_metrics =
     [''naming'' \<mapsto> \<lparr>Name = ''naming'', Weight = 1, Score = 7 / 8,
                      Description = ''naming conventions''\<rparr>,
      ''complexity'' \<mapsto> \<lparr>Name = ''complexity'', Weight = 1, Score = 1 / 8,
                          Description = ''cyclomatic complexity''\<rparr>,
      ''comment'' \<mapsto> \<lparr>Name = ''comment'', Weight = 2, Score = 1 / 2,
                       Description = ''comment ratio''\<rparr>]"

definition example_files :: "FileAnalysisResult list" where
  "example_files =
     [\<lparr>FilePath = ''main.go'', FileScore = 1 / 4, Issues = []\<rparr>,
      \<lparr>FilePath = ''pkg/report/report.go'', FileScore = 3 / 4,
        Issues = [''Function printTopIssues has HIGH Complexity'', ''Function is too long'']\<rparr>]"

definition example_memory :: memory where
  "example_memory =
     \<lparr>result = \<lparr>TotalFiles = 2, TotalLines = 900, Metrics = example_metrics,
                 FilesAnalyzed = \<lparr>array = 0, len = 2\<rparr>, CodeQualityScore = 1 / 2\<rparr>,
      arrays = [0 \<mapsto> example_files],
      next_addr = 1\<rparr>"



section \<open>Properties\<close>

subsection \<open>The quality level\<close>

lemma levelLoop_first:
  assumes "MinScore (QualityLevels ! 0) \<le> s"
      and "\<And>i. 0 < i \<Longrightarrow> i < n \<Longrightarrow> s < MinScore (QualityLevels ! i)"
      and "0 < n"
  shows "levelLoop s n level = QualityLevels ! 0"
  using assms
proof (induction n)
  case 0
  then show ?case by simp
next
  case (Suc n)
  show ?case
  proof (cases "n = 0")
    case True
    with Suc.prems show ?thesis by simp
  next
    case False
    then have "s < MinScore (QualityLevels ! n)" using Suc.prems(2)[of n] by simp
    moreover have "levelLoop s n level = QualityLevels ! 0"
      using Suc.IH Suc.prems False by simp
    ultimately show ?thesis by simp
  qed
qed

lemma length_QualityLevels: "length QualityLevels = 11"
  by (simp add: QualityLevels_def)

lemma map_MinScore: "map MinScore QualityLevels = map (\<lambda>i. 10 * real i) [0..<11]"
  by (simp add: QualityLevels_def upt_rec)

lemma MinScore_nth:
  assumes "i < 11" shows "MinScore (QualityLevels ! i) = 10 * real i"
proof -
  have "MinScore (QualityLevels ! i) = map MinScore QualityLevels ! i"
    using assms by (simp add: length_QualityLevels)
  also have "\<dots> = 10 * real i"
    unfolding map_MinScore using assms by (simp del: upt_Suc)
  finally show ?thesis .
qed

lemma getQualityLevel_unit_interval:
  assumes "0 \<le> s" "s < 10"
  shows "getQualityLevel s = QualityLevels ! 0"
  unfolding getQualityLevel_def length_QualityLevels
proof (rule levelLoop_first)
  show "MinScore (QualityLevels ! 0) \<le> s" using assms by (simp add: MinScore_nth)
  show "s < MinScore (QualityLevels ! i)" if "0 < i" "i < 11" for i
    using that assms by (simp add: MinScore_nth)
  show "(0::nat) < 11" by simp
qed

lemma scoreRange_values:
  fixes k :: int
  assumes "0 \<le> k" "k \<le> 100"
  shows "min 90 (k div 10 * 10) \<in> {0, 10, 20, 30, 40, 50, 60, 70, 80, 90}"
proof -
  have "0 \<le> k div 10" "k div 10 \<le> 10" using assms by simp_all
  then have "k div 10 \<in> {0, 1, 2, 3, 4, 5, 6, 7, 8, 9, 10}" by (simp; arith)
  then show ?thesis by auto
qed

subsection \<open>Sorting\<close>

lemma mset_sink: "mset (sink lt x below) = add_mset x (mset below)"
  by (induction below) auto

lemma mset_foldl_sink:
  "mset (foldl (\<lambda>below x. sink lt x below) acc xs) = mset acc + mset xs"
  by (induction xs arbitrary: acc) (auto simp: mset_sink)

lemma mset_insertionSort: "mset (insertionSort lt xs) = mset xs"
  by (simp add: insertionSort_def mset_foldl_sink)

lemma set_sink: "set (sink lt x below) = insert x (set below)"
  using mset_sink[of lt x below] by (metis set_mset_add_mset_insert set_mset_mset)

lemma length_insertionSort: "length (insertionSort lt xs) = length xs"
  using mset_insertionSort[of lt xs] by (metis size_mset)

text \<open>A callback that compares keys of a linear order, in either direction.\<close>

lemma sorted_sink:
  assumes asym: "\<And>a b. lt a b \<Longrightarrow> \<not> lt b a"
      and ntrans: "\<And>a b c. \<not> lt a b \<Longrightarrow> \<not> lt b c \<Longrightarrow> \<not> lt a c"
      and "sorted_wrt (\<lambda>a b. \<not> lt a b) below"
  shows "sorted_wrt (\<lambda>a b. \<not> lt a b) (sink lt x below)"
  using assms(3)
proof (induction below)
  case Nil
  then show ?case by simp
next
  case (Cons y below)
  show ?case
  proof (cases "lt x y")
    case True
    have "\<not> lt y z" if "z \<in> set (sink lt x below)" for z
      using that True asym Cons.prems by (auto simp: set_sink)
    moreover have "sorted_wrt (\<lambda>a b. \<not> lt a b) (sink lt x below)"
      using Cons by simp
    ultimately show ?thesis using True by simp
  next
    case False
    have "\<not> lt x z" if "z \<in> set below" for z
      using that False ntrans Cons.prems by auto
    then show ?thesis using False Cons.prems by simp
  qed
qed

lemma sorted_foldl_sink:
  assumes asym: "\<And>a b. lt a b \<Longrightarrow> \<not> lt b a"
      and ntrans: "\<And>a b c. \<not> lt a b \<Longrightarrow> \<not> lt b c \<Longrightarrow> \<not> lt a c"
      and "sorted_wrt (\<lambda>a b. \<not> lt a b) acc"
  shows "sorted_wrt (\<lambda>a b. \<not> lt a b) (foldl (\<lambda>below x. sink lt x below) acc xs)"
  using assms(3)
proof (induction xs arbitrary: acc)
  case Nil
  then show ?case by simp
next
  case (Cons x xs)
  have "sorted_wrt (\<lambda>a b. \<not> lt a b) (sink lt x acc)"
    using asym ntrans Cons.prems by (rule sorted_sink)
  then show ?case using Cons.IH by simp
qed

lemma sorted_insertionSort:
  assumes asym: "\<And>a b. lt a b \<Longrightarrow> \<not> lt b a"
      and ntrans: "\<And>a b c. \<not> lt a b \<Longrightarrow> \<not> lt b c \<Longrightarrow> \<not> lt a c"
  shows "sorted_wrt (\<lambda>a b. \<not> lt b a) (insertionSort lt xs)"
proof -
  have "sorted_wrt (\<lambda>a b. \<not> lt a b) (foldl (\<lambda>below x. sink lt x below) [] xs)"
  proof (rule sorted_foldl_sink[where lt = lt and acc = "[]" and xs = xs])
    show "\<not> lt b a" if "lt a b" for a b using that by (rule asym)
    show "\<not> lt a c" if "\<not> lt a b" "\<not> lt b c" for a b c using that by (rule ntrans)
    show "sorted_wrt (\<lambda>a b. \<not> lt a b) []" by simp
  qed
  then show ?thesis by (simp add: insertionSort_def sorted_wrt_rev)
qed

lemma sorted_by_Score:
  "sorted_wrt (\<lambda>a b. Score a \<le> Score b) (insertionSort (\<lambda>a b. Score a < Score b) ms)"
proof -
  have "sorted_wrt (\<lambda>a b. \<not> Score b < Score a) (insertionSort (\<lambda>a b. Score a < Score b) ms)"
    by (rule sorted_insertionSort) auto
  then show ?thesis by (simp add: not_less)
qed

lemma sorted_by_FileScore:
  "sorted_wrt (\<lambda>a b. FileScore a \<ge> FileScore b) (insertionSort (\<lambda>a b. FileScore a > FileScore b) fs)"
proof -
  have "sorted_wrt (\<lambda>a b. \<not> FileScore b > FileScore a)
          (insertionSort (\<lambda>a b. FileScore a > FileScore b) fs)"
    by (rule sorted_insertionSort) auto
  then show ?thesis by (simp add: not_less)
qed

subsection \<open>Metrics\<close>

lemma map_filter_range:
  assumes "range_order m order"
  shows "mset (List.map_filter m order) = image_mset (\<lambda>k. the (m k)) (mset_set (dom m))"
proof -
  have d: "distinct order" and s: "set order = dom m" using assms by (auto simp: range_order_def)
  have "filter (\<lambda>k. m k \<noteq> None) order = order"
    using s by (intro filter_True) auto
  then have "List.map_filter m order = map (\<lambda>k. the (m k)) order"
    by (simp add: List.map_filter_def comp_def)
  moreover have "mset order = mset_set (dom m)"
    using d s by (metis mset_set_set)
  ultimately show ?thesis by simp
qed

lemma mset_getSortedMetrics:
  assumes "range_order (Metrics r) order"
  shows "mset (getSortedMetrics r order)
       = image_mset (\<lambda>name. the (Metrics r name)) (mset_set (dom (Metrics r)))"
  using map_filter_range[OF assms] by (simp add: getSortedMetrics_def mset_insertionSort)

lemma sorted_getSortedMetrics:
  "sorted_wrt (\<lambda>a b. Score a \<le> Score b) (getSortedMetrics r order)"
  unfolding getSortedMetrics_def by (rule sorted_by_Score)

subsection \<open>Files\<close>

lemma getSortedFiles_eq:
  "getSortedFiles mem =
     (\<lparr>array = next_addr mem, len = length (elements mem (FilesAnalyzed (result mem)))\<rparr>,
      mem\<lparr>arrays := (arrays mem)(next_addr mem \<mapsto>
              insertionSort (\<lambda>a b. FileScore a > FileScore b)
                (elements mem (FilesAnalyzed (result mem)))),
          next_addr := Suc (next_addr mem)\<rparr>)"
  by (simp add: getSortedFiles_def append_to_empty_def sort_Slice_def Let_def)

lemma elements_getSortedFiles:
  "elements (snd (getSortedFiles mem)) (fst (getSortedFiles mem))
     = insertionSort (\<lambda>a b. FileScore a > FileScore b) (elements mem (FilesAnalyzed (result mem)))"
  by (simp add: getSortedFiles_eq elements_def length_insertionSort)

subsection \<open>The example\<close>

lemma example_sorted_metrics:
  "map Name (getSortedMetrics (result example_memory) [''naming'', ''comment'', ''complexity''])
     = [''complexity'', ''comment'', ''naming'']"
  by (simp add: getSortedMetrics_def example_memory_def example_metrics_def List.map_filter_def
      insertionSort_def)

lemma example_sorted_files:
  "map FilePath (elements (snd (getSortedFiles example_memory)) (fst (getSortedFiles example_memory)))
     = [''pkg/report/report.go'', ''main.go'']"
  by (simp add: elements_getSortedFiles insertionSort_def)
     (simp add: elements_def example_memory_def example_files_def)

subsection \<open>The memory after a report\<close>

lemma untouched_refl: "untouched mem mem"
  by (simp add: untouched_def)

lemma untouched_getSortedFiles: "untouched mem (snd (getSortedFiles mem))"
  by (simp add: getSortedFiles_eq untouched_def)

lemma snd_printTopIssues: "snd (printTopIssues L opts mem) = snd (getSortedFiles mem)"
  by (simp add: printTopIssues_def Let_def split: prod.splits)

lemma snd_printAllFiles: "snd (printAllFiles L opts mem) = snd (getSortedFiles mem)"
  by (simp add: printAllFiles_def Let_def split: prod.splits)

lemma elements_untouched:
  assumes "untouched mem mem'" "allocated mem (FilesAnalyzed (result mem))"
  shows "elements mem' (FilesAnalyzed (result mem')) = elements mem (FilesAnalyzed (result mem))"
  using assms by (auto simp: untouched_def allocated_def elements_def)

subsection \<open>The issue categories\<close>

lemma issue_key:
  "\<exists>key \<in> set categoryOrder.
      (\<forall>m. categorizeIssue L m issue = increment m key)
    \<and> categoryInfo key = Some (prod.swap (getIssueIconAndColor L issue))
    \<and> (key = ''other'' \<longleftrightarrow> (\<forall>kw \<in> set categoryKeywords. \<not> Contains (L issue) kw))"
  by (simp add: categorizeIssue_def getIssueIconAndColor_def categoryOrder_def
      categoryInfo_def categoryKeywords_def Let_def)

lemma categoryInfo_inj:
  assumes "categoryInfo k = Some p" "categoryInfo k' = Some p"
  shows "k = k'"
  using assms by (auto simp: categoryInfo_def split: if_splits)

lemma dom_categoryInfo: "dom categoryInfo = set categoryOrder"
  by (auto simp: categoryInfo_def categoryOrder_def split: if_splits)

lemma dom_initialCategories: "dom initialCategories = set categoryOrder"
  by (auto simp: initialCategories_def categoryOrder_def)

lemma initialCategories_zero:
  assumes "initialCategories k = Some n" shows "n = 0"
  using assms by (auto simp: initialCategories_def split: if_splits)

lemma increment_inj:
  assumes "increment m k = increment m k'" shows "k = k'"
proof (rule ccontr)
  assume ne: "k \<noteq> k'"
  have "increment m k k = increment m k' k" using assms by simp
  with ne show False by (auto simp: increment_def split: option.splits)
qed

lemma issue_key_unique:
  "\<exists>k0 \<in> set categoryOrder.
      (\<forall>m. categorizeIssue L m issue = increment m k0)
    \<and> (\<forall>key. categoryInfo key = Some (prod.swap (getIssueIconAndColor L issue)) \<longleftrightarrow> key = k0)
    \<and> (k0 = ''other'' \<longleftrightarrow> (\<forall>kw \<in> set categoryKeywords. \<not> Contains (L issue) kw))"
proof -
  from issue_key[of L issue] obtain k0 where k0: "k0 \<in> set categoryOrder"
    and inc: "\<forall>m. categorizeIssue L m issue = increment m k0"
    and info: "categoryInfo k0 = Some (prod.swap (getIssueIconAndColor L issue))"
    and oth: "k0 = ''other'' \<longleftrightarrow> (\<forall>kw \<in> set categoryKeywords. \<not> Contains (L issue) kw)"
    by (elim bexE conjE)
  have "categoryInfo key = Some (prod.swap (getIssueIconAndColor L issue)) \<longleftrightarrow> key = k0" for key
  proof
    assume "categoryInfo key = Some (prod.swap (getIssueIconAndColor L issue))"
    then show "key = k0" using info by (rule categoryInfo_inj)
  next
    assume "key = k0"
    then show "categoryInfo key = Some (prod.swap (getIssueIconAndColor L issue))"
      using info by simp
  qed
  then have "\<forall>key. categoryInfo key = Some (prod.swap (getIssueIconAndColor L issue)) \<longleftrightarrow> key = k0"
    by simp
  with k0 inc oth show ?thesis by (intro bexI[of _ k0] conjI)
qed

lemma foldl_categorizeIssue_count:
  "foldl (categorizeIssue L) m issues key =
     (if countShown L key issues = 0 then m key
      else Some ((case m key of None \<Rightarrow> 0 | Some v \<Rightarrow> v) + int (countShown L key issues)))"
proof (induction issues arbitrary: m)
  case Nil
  then show ?case by (simp add: countShown_def)
next
  case (Cons issue issues)
  from issue_key_unique[of L issue]
  obtain k0 where k0: "\<forall>m. categorizeIssue L m issue = increment m k0"
    "\<forall>key. categoryInfo key = Some (prod.swap (getIssueIconAndColor L issue)) \<longleftrightarrow> key = k0"
    by (elim bexE conjE)
  have step: "foldl (categorizeIssue L) m (issue # issues) key
      = foldl (categorizeIssue L) (increment m k0) issues key"
    using k0(1) by simp
  show ?case
  proof (cases "key = k0")
    case True
    then have c: "countShown L key (issue # issues) = Suc (countShown L key issues)"
      using k0(2) by (simp add: countShown_def)
    have "increment m k0 key = Some ((case m key of None \<Rightarrow> 0 | Some v \<Rightarrow> v) + 1)"
      using True by (simp add: increment_def)
    then show ?thesis unfolding step Cons.IH c by simp
  next
    case False
    then have c: "countShown L key (issue # issues) = countShown L key issues"
      using k0(2) by (simp add: countShown_def)
    have "increment m k0 key = m key" using False by (simp add: increment_def)
    then show ?thesis unfolding step Cons.IH c by simp
  qed
qed

lemma countShown_outside:
  assumes "key \<notin> set categoryOrder" shows "countShown L key issues = 0"
proof -
  have "categoryInfo key = None" using assms dom_categoryInfo by blast
  then show ?thesis by (simp add: countShown_def)
qed

lemma categorizeIssues_count:
  "categorizeIssues L issues key =
     (if countShown L key issues = 0 then None else Some (int (countShown L key issues)))"
proof (cases "initialCategories key")
  case None
  then have "key \<notin> set categoryOrder" using dom_initialCategories by blast
  then have "countShown L key issues = 0" by (rule countShown_outside)
  then show ?thesis
    by (simp add: categorizeIssues_def deleteZeroCounts_def foldl_categorizeIssue_count None)
next
  case (Some n)
  then have "n = 0" by (rule initialCategories_zero)
  with Some show ?thesis
    by (simp add: categorizeIssues_def deleteZeroCounts_def foldl_categorizeIssue_count)
qed

lemma set_categoryOrder:
  "set categoryOrder =
     {''complexity'', ''comment'', ''naming'', ''structure'', ''duplication'', ''error'', ''other''}"
  by (simp add: categoryOrder_def)

lemma categorizeIssue_increments:
  "\<exists>key \<in> set categoryOrder. categorizeIssue L categories issue = increment categories key"
  by (simp add: categorizeIssue_def categoryOrder_def Let_def)

lemma dom_increment: "dom (increment m k) = insert k (dom m)"
  by (simp add: increment_def)

lemma total_increment:
  assumes "finite (dom m)" "k \<in> dom m"
  shows "total (increment m k) = total m + 1"
proof -
  obtain n where n: "m k = Some n" using assms(2) by auto
  have d: "dom (increment m k) = dom m" using assms(2) by (auto simp: dom_increment)
  have "total (increment m k) = (\<Sum>j \<in> dom m. the (increment m k j))"
    by (simp add: total_def d)
  also have "\<dots> = the (increment m k k) + (\<Sum>j \<in> dom m - {k}. the (increment m k j))"
    using assms by (simp add: sum.remove)
  also have "(\<Sum>j \<in> dom m - {k}. the (increment m k j)) = (\<Sum>j \<in> dom m - {k}. the (m j))"
    by (rule sum.cong) (auto simp: increment_def)
  also have "the (increment m k k) = the (m k) + 1"
    by (simp add: increment_def n)
  also have "the (m k) + 1 + (\<Sum>j \<in> dom m - {k}. the (m j)) = total m + 1"
    using assms by (simp add: total_def sum.remove[of "dom m" k])
  finally show ?thesis .
qed

lemma counts_ok_initial: "counts_ok initialCategories"
proof -
  have "0 \<le> n" if "initialCategories k = Some n" for k n
    using that by (auto simp: initialCategories_def split: if_splits)
  then show ?thesis unfolding counts_ok_def using dom_initialCategories by blast
qed

lemma counts_ok_increment:
  assumes "counts_ok m" "k \<in> set categoryOrder"
  shows "counts_ok (increment m k)"
  using assms by (auto simp: counts_ok_def dom_increment increment_def split: option.splits if_splits)

lemma foldl_categorizeIssue:
  assumes "counts_ok m"
  shows "counts_ok (foldl (categorizeIssue L) m issues)
       \<and> total (foldl (categorizeIssue L) m issues) = total m + int (length issues)"
  using assms
proof (induction issues arbitrary: m)
  case Nil
  then show ?case by simp
next
  case (Cons issue issues)
  obtain key where key: "key \<in> set categoryOrder"
      "categorizeIssue L m issue = increment m key"
    using categorizeIssue_increments by blast
  have ok: "counts_ok (increment m key)" using Cons.prems key(1) by (rule counts_ok_increment)
  have fin: "finite (dom m)" "key \<in> dom m" using Cons.prems key(1) by (auto simp: counts_ok_def)
  have "total (increment m key) = total m + 1" using fin by (rule total_increment)
  with Cons.IH[OF ok] key(2) show ?case by simp
qed

lemma total_initial: "total initialCategories = 0"
proof -
  have "\<And>k. k \<in> dom initialCategories \<Longrightarrow> the (initialCategories k) = 0"
    by (auto simp: initialCategories_def split: if_splits)
  then show ?thesis by (simp add: total_def)
qed

lemma dom_deleteZeroCounts: "dom (deleteZeroCounts m) = {k \<in> dom m. m k \<noteq> Some 0}"
  by (auto simp: deleteZeroCounts_def split: option.splits if_splits)

lemma total_deleteZeroCounts:
  assumes "finite (dom m)"
  shows "total (deleteZeroCounts m) = total m"
proof -
  have "total (deleteZeroCounts m) = (\<Sum>k \<in> {k \<in> dom m. m k \<noteq> Some 0}. the (deleteZeroCounts m k))"
    by (simp add: total_def dom_deleteZeroCounts)
  also have "\<dots> = (\<Sum>k \<in> {k \<in> dom m. m k \<noteq> Some 0}. the (m k))"
    by (rule sum.cong) (auto simp: deleteZeroCounts_def split: option.splits)
  also have "\<dots> = (\<Sum>k \<in> dom m. the (m k))"
    using assms by (intro sum.mono_neutral_left) auto
  finally show ?thesis by (simp add: total_def)
qed

lemma categorizeIssues_total:
  "total (categorizeIssues L issues) = int (length issues)"
proof -
  let ?m = "foldl (categorizeIssue L) initialCategories issues"
  have m: "counts_ok ?m" "total ?m = int (length issues)"
    using foldl_categorizeIssue[OF counts_ok_initial, of L issues] by (simp_all add: total_initial)
  then have "finite (dom ?m)" by (simp add: counts_ok_def)
  then show ?thesis unfolding categorizeIssues_def using m(2) by (simp add: total_deleteZeroCounts)
qed

lemma categorizeIssues_dom: "dom (categorizeIssues L issues) \<subseteq> set categoryOrder"
proof -
  let ?m = "foldl (categorizeIssue L) initialCategories issues"
  have "counts_ok ?m" using foldl_categorizeIssue[OF counts_ok_initial] by simp
  then show ?thesis unfolding categorizeIssues_def by (auto simp: dom_deleteZeroCounts counts_ok_def)
qed

lemma categorizeIssues_positive:
  assumes "categorizeIssues L issues key = Some n"
  shows "1 \<le> n"
proof -
  let ?m = "foldl (categorizeIssue L) initialCategories issues"
  have ok: "counts_ok ?m" using foldl_categorizeIssue[OF counts_ok_initial] by simp
  from assms have "?m key = Some n" "n \<noteq> 0"
    by (auto simp: categorizeIssues_def deleteZeroCounts_def split: option.splits if_splits)
  with ok have "0 \<le> n" "n \<noteq> 0" by (auto simp: counts_ok_def)
  then show ?thesis by simp
qed

lemma countShown_other: "countShown L ''other'' issues = countUnmatched L issues"
proof -
  have "(categoryInfo ''other'' = Some (prod.swap (getIssueIconAndColor L issue)))
      = (\<forall>kw \<in> set categoryKeywords. \<not> Contains (L issue) kw)" for issue
  proof -
    from issue_key_unique[of L issue]
    obtain k where
      info: "\<forall>key. categoryInfo key = Some (prod.swap (getIssueIconAndColor L issue)) \<longleftrightarrow> key = k"
      and oth: "k = ''other'' \<longleftrightarrow> (\<forall>kw \<in> set categoryKeywords. \<not> Contains (L issue) kw)"
      by (elim bexE conjE)
    from info have "categoryInfo ''other'' = Some (prod.swap (getIssueIconAndColor L issue))
       \<longleftrightarrow> ''other'' = k" by (rule spec)
    with oth show ?thesis by metis
  qed
  then show ?thesis by (simp add: countShown_def countUnmatched_def)
qed

lemma unmatched_step:
  assumes "\<forall>kw \<in> set categoryKeywords. \<not> Contains (L issue) kw"
  shows "categorizeIssue L m issue = increment m ''other''"
proof -
  from issue_key_unique[of L issue]
  obtain k where inc: "\<forall>m. categorizeIssue L m issue = increment m k"
      and oth: "k = ''other'' \<longleftrightarrow> (\<forall>kw \<in> set categoryKeywords. \<not> Contains (L issue) kw)"
    by (elim bexE conjE)
  from oth assms have "k = ''other''" by simp
  with inc show ?thesis by simp
qed

lemma one_category:
  "\<exists>k \<in> set categoryOrder. \<forall>m key. (categorizeIssue L m issue = increment m key) = (key = k)"
proof -
  from issue_key_unique[of L issue]
  obtain k where k: "k \<in> set categoryOrder"
    and inc: "\<forall>m. categorizeIssue L m issue = increment m k"
    by (elim bexE conjE)
  have "\<forall>m key. (categorizeIssue L m issue = increment m key) = (key = k)"
    using inc increment_inj by metis
  with k show ?thesis by (rule bexI[rotated])
qed

lemma example_counts:
  "categorizeIssues ToLowerASCII
     [''Cyclomatic Complexity of f is 17'', ''Function Foo is too LONG'', ''Bad Name: x'',
      ''unchecked ERROR in g'']
   = [''complexity'' \<mapsto> 1, ''other'' \<mapsto> 1, ''naming'' \<mapsto> 1, ''error'' \<mapsto> 1]"
  by (rule ext) (simp add: categorizeIssues_def categorizeIssue_def deleteZeroCounts_def
      increment_def initialCategories_def ToLowerASCII_def lowerByte_def Let_def)

subsection \<open>float64 arithmetic\<close>

lemma pow2_pos: "0 < pow2 k"
  by (simp add: pow2_def)

lemma round_half_even_le:
  assumes "m \<le> of_int N"
  shows "round_half_even m \<le> N"
proof -
  have f: "\<lfloor>m\<rfloor> \<le> N" using assms by (simp add: floor_le_iff)
  show ?thesis
  proof (cases "\<lfloor>m\<rfloor> = N")
    case True
    then have "m - of_int \<lfloor>m\<rfloor> \<le> 0" using assms by simp
    then show ?thesis using True by (simp add: round_half_even_def Let_def)
  next
    case False
    with f have "\<lfloor>m\<rfloor> + 1 \<le> N" by simp
    then show ?thesis using f by (simp add: round_half_even_def Let_def)
  qed
qed

lemma round_half_even_nonneg:
  assumes "0 \<le> m"
  shows "0 \<le> round_half_even m"
proof -
  have "0 \<le> \<lfloor>m\<rfloor>" using assms by simp
  then show ?thesis by (simp add: round_half_even_def Let_def)
qed

lemma binade_le_6:
  assumes "0 < a" "a \<le> 100"
  shows "binade a \<le> 6"
proof (cases "1 \<le> a")
  case True
  have "nat \<lfloor>a\<rfloor> \<le> 100" using assms by (simp add: floor_le_iff nat_le_iff)
  then have "floorlog 2 (nat \<lfloor>a\<rfloor>) \<le> floorlog 2 100" by (rule floorlog_mono)
  also have "floorlog 2 100 = 7" by (simp add: compute_floorlog)
  finally show ?thesis using True by (simp add: binade_def)
next
  case False
  then show ?thesis by (simp add: binade_def)
qed

lemma round_float64_range:
  assumes "0 \<le> x" "x \<le> 100"
  shows "0 \<le> round_float64 x \<and> round_float64 x \<le> 100"
proof (cases "x = 0")
  case True
  then show ?thesis by (simp add: round_float64_def)
next
  case False
  with assms have pos: "0 < x" by simp
  define k where "k = max (binade x) (- 1022) - 52"
  define q where "q = pow2 k"
  have k: "k \<le> - 46" using binade_le_6[OF pos assms(2)] by (simp add: k_def)
  have q: "q = 1 / 2 ^ nat (- k)" using k by (simp add: q_def pow2_def)
  have qpos: "0 < q" by (simp add: q_def pow2_pos)
  have r: "round_float64 x = q * of_int (round_half_even (x / q))"
    using pos by (simp add: round_float64_def Let_def k_def q_def)
  have "x / q \<le> 100 / q" using assms(2) qpos by (simp add: divide_right_mono)
  also have "100 / q = of_int (100 * 2 ^ nat (- k))" by (simp add: q)
  finally have "round_half_even (x / q) \<le> 100 * 2 ^ nat (- k)" by (rule round_half_even_le)
  then have "(of_int (round_half_even (x / q)) :: real) \<le> of_int (100 * 2 ^ nat (- k))"
    by (rule of_int_le_iff[THEN iffD2])
  then have "q * of_int (round_half_even (x / q)) \<le> q * of_int (100 * 2 ^ nat (- k))"
    using qpos by (simp add: mult_left_mono)
  also have "q * of_int (100 * 2 ^ nat (- k)) = 100" by (simp add: q)
  finally have up: "round_float64 x \<le> 100" by (simp add: r)
  have "0 \<le> x / q" using pos qpos by simp
  then have "0 \<le> round_half_even (x / q)" by (rule round_half_even_nonneg)
  then have "0 \<le> q * of_int (round_half_even (x / q))" using qpos by simp
  with up r show ?thesis by simp
qed


subsection \<open>Rounding at given values\<close>

lemma round_float64_eval:
  assumes "0 < x" "binade x = e" "- 1022 \<le> e" "e \<le> 52"
    and "round_half_even (x * 2 ^ nat (52 - e)) = n"
    and "c = of_int n / 2 ^ nat (52 - e)"
  shows "round_float64 x = c"
proof -
  have m: "max (binade x) (- 1022) - 52 = e - 52" using assms(2,3) by simp
  have q: "pow2 (e - 52) = 1 / 2 ^ nat (52 - e)"
  proof (cases "e = 52")
    case True
    then show ?thesis by (simp add: pow2_def)
  next
    case False
    with assms(4) have "e - 52 < 0" by simp
    moreover have "nat (- (e - 52)) = nat (52 - e)" by simp
    ultimately show ?thesis by (simp add: pow2_def)
  qed
  have "round_float64 x = pow2 (e - 52) * of_int (round_half_even (x / pow2 (e - 52)))"
    using assms(1) by (simp add: round_float64_def Let_def m)
  also have "\<dots> = of_int n / 2 ^ nat (52 - e)"
    using assms(5) by (simp add: q)
  finally show ?thesis using assms(6) by simp
qed





























lemma scale_1: "mul64 (5404319552844595 / 18014398509481984) 100 = 30"
  unfolding mul64_def
  by (rule round_float64_eval[where e = "4" and n = "8444249301319680"])
     (simp_all add: binade_def compute_floorlog round_half_even_def Let_def)

lemma scale_2: "mul64 1 100 = 100"
  unfolding mul64_def
  by (rule round_float64_eval[where e = "6" and n = "7036874417766400"])
     (simp_all add: binade_def compute_floorlog round_half_even_def Let_def)



lemma float64_three_tenths: "is_float64 (5404319552844595 / 18014398509481984)"
  unfolding is_float64_def
  by (rule round_float64_eval[where e = "-2" and n = "5404319552844595"])
     (simp_all add: binade_def compute_floorlog round_half_even_def Let_def)









subsection \<open>The score calculation\<close>

lemma printMetricItems_eq:
  "printMetricItems r order =
     Inr \<lparr>metric_lines = map metricLine (getSortedMetrics r order),
          calculation =
            (if 0 < accumulated_weight (getSortedMetrics r order) then
               Some \<lparr>calc_terms =
                       map (\<lambda>m. (div64 (math_Round (mul64 (Score m) 10000)) 100, Weight m))
                         (getSortedMetrics r order),
                     calc_total = accumulated_weight (getSortedMetrics r order),
                     calc_overall =
                       div64 (math_Round (mul64
                         (div64 (accumulated_score (getSortedMetrics r order))
                                (accumulated_weight (getSortedMetrics r order)))
                         10000)) 100\<rparr>
             else None)\<rparr>"
  by (simp add: printMetricItems_def Let_def divide_checked_def accumulated_weight_def
      accumulated_score_def)













subsection \<open>Metrics with different scores have one sorted order\<close>



subsection \<open>What a report returns\<close>

lemma GenerateConsoleReport_result:
  "\<exists>report mem'. GenerateConsoleReport T L order1 order2 options mem = Inr (report, mem')
      \<and> (mem' = mem \<or> mem' = snd (getSortedFiles mem))
      \<and> report_level report = getQualityLevel (CodeQualityScore (result mem))
      \<and> report_comment report = printScoreComment T (CodeQualityScore (result mem))"
proof -
  let ?options = "case options of None \<Rightarrow> DefaultReportOptions | Some given \<Rightarrow> given"
  obtain items where items: "printMetricItems (result mem) order1 = Inr items"
    using printMetricItems_eq by blast
  obtain f1 m1 where a: "printAllFiles L ?options mem = (f1, m1)"
    by (cases "printAllFiles L ?options mem")
  obtain f2 m2 where t: "printTopIssues L ?options mem = (f2, m2)"
    by (cases "printTopIssues L ?options mem")
  have m1: "m1 = snd (getSortedFiles mem)" using a snd_printAllFiles by (metis snd_conv)
  have m2: "m2 = snd (getSortedFiles mem)" using t snd_printTopIssues by (metis snd_conv)
  show ?thesis
    by (simp add: GenerateConsoleReport_def Let_def items a t m1 m2)
qed

text \<open>
  Claim C1. The claim: for a score \<open>s\<close> in \<open>[0,1]\<close> the level chosen is the entry of
  \<open>QualityLevels\<close> with the greatest \<open>MinScore\<close> that is at most \<open>100 * s\<close>. The table
  is in points out of 100, but \<open>GenerateConsoleReport\<close> hands \<open>getQualityLevel\<close> the raw
  score. For the example, whose score is \<open>1/2\<close>, the report shows entry 0
  (\<open>level.clean\<close>, \<open>MinScore\<close> 0), while the band of \<open>100 * (1/2) = 50\<close> is entry 5
  (\<open>level.disaster\<close>), which is what \<open>getQualityLevel\<close> returns when it is given the
  points.
\<close>

theorem report_level_of_half_is_clean:
  "CodeQualityScore (result example_memory) = 1 / 2
   \<and> (\<exists>report mem'.
         GenerateConsoleReport Translate ToLower order1 order2 options example_memory
           = Inr (report, mem')
       \<and> report_level report = QualityLevels ! 0
       \<and> NameKey (report_level report) = ''level.clean''
       \<and> MinScore (report_level report) = 0)
   \<and> MinScore (QualityLevels ! 5) = 50
   \<and> MinScore (QualityLevels ! 5) \<le> 100 * (1 / 2)
   \<and> 100 * (1 / 2) < MinScore (QualityLevels ! 6)
   \<and> getQualityLevel (100 * (1 / 2)) = QualityLevels ! 5
   \<and> NameKey (QualityLevels ! 5) = ''level.disaster''"
proof -
  have s: "CodeQualityScore (result example_memory) = 1 / 2"
    by (simp add: example_memory_def)
  from GenerateConsoleReport_result[of Translate ToLower order1 order2 options example_memory]
  obtain report mem' where
    run: "GenerateConsoleReport Translate ToLower order1 order2 options example_memory
           = Inr (report, mem')"
    and lv: "report_level report = getQualityLevel (CodeQualityScore (result example_memory))"
    by blast
  have "getQualityLevel (1 / 2) = QualityLevels ! 0"
    by (rule getQualityLevel_unit_interval) simp_all
  with lv s have l0: "report_level report = QualityLevels ! 0" by simp
  have "NameKey (QualityLevels ! 0) = ''level.clean''" "MinScore (QualityLevels ! 0) = 0"
    by (simp_all add: QualityLevels_def)
  with run l0 have 1: "\<exists>report mem'.
         GenerateConsoleReport Translate ToLower order1 order2 options example_memory
           = Inr (report, mem')
       \<and> report_level report = QualityLevels ! 0
       \<and> NameKey (report_level report) = ''level.clean''
       \<and> MinScore (report_level report) = 0"
    by (intro exI[of _ report] exI[of _ mem']) simp
  have 2: "MinScore (QualityLevels ! 5) = 50 \<and> MinScore (QualityLevels ! 5) \<le> 100 * (1 / 2)
     \<and> 100 * (1 / 2) < MinScore (QualityLevels ! 6)
     \<and> getQualityLevel (100 * (1 / 2)) = QualityLevels ! 5
     \<and> NameKey (QualityLevels ! 5) = ''level.disaster''"
    by (simp add: getQualityLevel_def QualityLevels_def numeral_eq_Suc)
  from s 1 2 show ?thesis by blast
qed

text \<open>
  Claim C2. \<open>printScoreComment\<close> compares the raw score with 30 and 70, without
  rescaling it to percent. For every score in \<open>[0,1]\<close> it therefore takes its first
  branch: the comment, of \<open>GenerateConsoleReport\<close> too, is printed in \<open>goodStyle\<close>,
  whatever the score.
\<close>

theorem printScoreComment_always_good:
  assumes "0 \<le> CodeQualityScore (result mem)" "CodeQualityScore (result mem) \<le> 1"
  shows "fst (printScoreComment Translate score) =
           (if score < 30 then goodStyle else if score < 70 then warningStyle else dangerStyle)
       \<and> printScoreComment Translate (CodeQualityScore (result mem))
           = (goodStyle, getScoreComment Translate (CodeQualityScore (result mem)))
       \<and> (\<exists>report mem'.
             GenerateConsoleReport Translate ToLower order1 order2 options mem
               = Inr (report, mem')
           \<and> fst (report_comment report) = goodStyle)"
proof -
  have 1: "fst (printScoreComment Translate score) =
           (if score < 30 then goodStyle else if score < 70 then warningStyle else dangerStyle)"
    by (simp add: printScoreComment_def)
  have 2: "printScoreComment Translate (CodeQualityScore (result mem))
           = (goodStyle, getScoreComment Translate (CodeQualityScore (result mem)))"
    using assms by (simp add: printScoreComment_def)
  from GenerateConsoleReport_result[of Translate ToLower order1 order2 options mem]
  obtain report mem' where
    "GenerateConsoleReport Translate ToLower order1 order2 options mem = Inr (report, mem')"
    "report_comment report = printScoreComment Translate (CodeQualityScore (result mem))"
    by blast
  with 2 have 3: "\<exists>report mem'.
             GenerateConsoleReport Translate ToLower order1 order2 options mem
               = Inr (report, mem')
           \<and> fst (report_comment report) = goodStyle"
    by (intro exI[of _ report] exI[of _ mem']) simp
  from 1 2 3 show ?thesis by blast
qed

theorem printScoreComment_always_good_witness:
  "0 \<le> CodeQualityScore (result (example_memory\<lparr>result := (result example_memory)\<lparr>CodeQualityScore := 1\<rparr>\<rparr>))
   \<and> CodeQualityScore (result (example_memory\<lparr>result := (result example_memory)\<lparr>CodeQualityScore := 1\<rparr>\<rparr>)) \<le> 1
   \<and> printScoreComment (\<lambda>key. key) 1 = (goodStyle, ''score.comment.90'')"
  using printScoreComment_always_good[of
      "example_memory\<lparr>result := (result example_memory)\<lparr>CodeQualityScore := 1\<rparr>\<rparr>" "\<lambda>key. key"]
  by (simp add: getScoreComment_def scale_2 truncate_int_def formatInt_def formatNat.simps
      digit_def signed_divide_int_def)

subsection \<open>The claims about issues, metrics and files\<close>

text \<open>
  Claim C3. The two classifiers agree. For every list of issues and every key, the count
  \<open>categorizeIssues\<close> returns under the key is the number of issues that
  \<open>getIssueIconAndColor\<close> shows with the icon and colour of that category (no entry
  when that number is 0); and for every issue one category \<open>k\<close> is both the only
  counter the loop body increments and the only category whose icon and colour
  \<open>getIssueIconAndColor\<close> returns.
\<close>

theorem classifiers_agree:
  "categorizeIssues ToLower issues key =
     (if countShown ToLower key issues = 0 then None
      else Some (int (countShown ToLower key issues)))
   \<and> (\<exists>k \<in> set categoryOrder. \<forall>m key'.
         (categorizeIssue ToLower m issue = increment m key' \<longleftrightarrow> key' = k)
       \<and> (categoryInfo key' = Some (prod.swap (getIssueIconAndColor ToLower issue)) \<longleftrightarrow> key' = k))"
proof
  show "categorizeIssues ToLower issues key =
     (if countShown ToLower key issues = 0 then None
      else Some (int (countShown ToLower key issues)))"
    by (rule categorizeIssues_count)
next
  from issue_key_unique[of ToLower issue]
  obtain k where k: "k \<in> set categoryOrder"
    and inc: "\<forall>m. categorizeIssue ToLower m issue = increment m k"
    and info: "\<forall>key. categoryInfo key = Some (prod.swap (getIssueIconAndColor ToLower issue))
        \<longleftrightarrow> key = k"
    by (elim bexE conjE)
  have "categorizeIssue ToLower m issue = increment m key' \<longleftrightarrow> key' = k" for m key'
    using inc increment_inj[of m k key'] by auto
  with info have "\<forall>m key'.
         (categorizeIssue ToLower m issue = increment m key' \<longleftrightarrow> key' = k)
       \<and> (categoryInfo key' = Some (prod.swap (getIssueIconAndColor ToLower issue)) \<longleftrightarrow> key' = k)"
    by simp
  with k show "\<exists>k \<in> set categoryOrder. \<forall>m key'.
         (categorizeIssue ToLower m issue = increment m key' \<longleftrightarrow> key' = k)
       \<and> (categoryInfo key' = Some (prod.swap (getIssueIconAndColor ToLower issue)) \<longleftrightarrow> key' = k)"
    by (rule bexI[rotated])
qed




text \<open>
  Claim C5. \<open>printMetricItems\<close> never divides by zero: for every input it returns what
  it prints, and the line of the score calculation, which holds the only quotient by
  the total weight, is there exactly when the total weight is positive. With an empty
  map \<open>Metrics\<close> the total weight is 0 and only the (empty) list of metrics is printed.
\<close>

theorem printMetricItems_division_guarded:
  "(\<exists>items. printMetricItems r order = Inr items
      \<and> (calculation items = None)
          = (\<not> 0 < accumulated_weight (getSortedMetrics r order)))
   \<and> accumulated_weight (getSortedMetrics (r\<lparr>Metrics := Map.empty\<rparr>) order) = 0
   \<and> printMetricItems (r\<lparr>Metrics := Map.empty\<rparr>) order
       = Inr \<lparr>metric_lines = [], calculation = None\<rparr>"
proof -
  have e: "getSortedMetrics (r\<lparr>Metrics := Map.empty\<rparr>) order = []"
    by (simp add: getSortedMetrics_def List.map_filter_def insertionSort_def)
  have z: "accumulated_weight [] = 0" by (simp add: accumulated_weight_def)
  show ?thesis by (simp add: printMetricItems_eq e z)
qed

text \<open>
  Claim C6. A report does not change the \<open>AnalysisResult\<close> it reads. For every memory
  whose slice \<open>FilesAnalyzed\<close> is allocated, \<open>GenerateConsoleReport\<close> returns, and in
  the memory it leaves behind \<open>TotalFiles\<close>, \<open>TotalLines\<close>, \<open>CodeQualityScore\<close>, the map
  \<open>Metrics\<close> and the slice \<open>FilesAnalyzed\<close> are the same, the elements of
  \<open>FilesAnalyzed\<close> are the same in the same order, and so is every array that existed
  before. In particular \<open>getSortedFiles\<close> returns a slice on a new array and leaves the
  elements of \<open>FilesAnalyzed\<close> as they were.
\<close>

theorem report_leaves_result_unchanged:
  assumes "allocated mem (FilesAnalyzed (result mem))"
  shows "(\<exists>report mem'.
            GenerateConsoleReport Translate ToLower order1 order2 options mem = Inr (report, mem')
          \<and> TotalFiles (result mem') = TotalFiles (result mem)
          \<and> TotalLines (result mem') = TotalLines (result mem)
          \<and> CodeQualityScore (result mem') = CodeQualityScore (result mem)
          \<and> Metrics (result mem') = Metrics (result mem)
          \<and> FilesAnalyzed (result mem') = FilesAnalyzed (result mem)
          \<and> elements mem' (FilesAnalyzed (result mem')) = elements mem (FilesAnalyzed (result mem))
          \<and> (\<forall>a. a < next_addr mem \<longrightarrow> arrays mem' a = arrays mem a))
       \<and> \<not> array (fst (getSortedFiles mem)) < next_addr mem
       \<and> elements (snd (getSortedFiles mem)) (FilesAnalyzed (result (snd (getSortedFiles mem))))
           = elements mem (FilesAnalyzed (result mem))"
proof -
  from GenerateConsoleReport_result[of Translate ToLower order1 order2 options mem]
  obtain report mem' where
    run: "GenerateConsoleReport Translate ToLower order1 order2 options mem = Inr (report, mem')"
    and mem': "mem' = mem \<or> mem' = snd (getSortedFiles mem)"
    by blast
  have u: "untouched mem mem'"
    using mem' untouched_refl untouched_getSortedFiles by auto
  have e: "elements mem' (FilesAnalyzed (result mem')) = elements mem (FilesAnalyzed (result mem))"
    using u assms by (rule elements_untouched)
  have r: "result mem' = result mem" and a: "\<forall>a. a < next_addr mem \<longrightarrow> arrays mem' a = arrays mem a"
    using u by (simp_all add: untouched_def)
  have 1: "\<exists>report mem'.
            GenerateConsoleReport Translate ToLower order1 order2 options mem = Inr (report, mem')
          \<and> TotalFiles (result mem') = TotalFiles (result mem)
          \<and> TotalLines (result mem') = TotalLines (result mem)
          \<and> CodeQualityScore (result mem') = CodeQualityScore (result mem)
          \<and> Metrics (result mem') = Metrics (result mem)
          \<and> FilesAnalyzed (result mem') = FilesAnalyzed (result mem)
          \<and> elements mem' (FilesAnalyzed (result mem')) = elements mem (FilesAnalyzed (result mem))
          \<and> (\<forall>a. a < next_addr mem \<longrightarrow> arrays mem' a = arrays mem a)"
    using run e r a by (intro exI[of _ report] exI[of _ mem']) simp
  have 2: "\<not> array (fst (getSortedFiles mem)) < next_addr mem"
    by (simp add: getSortedFiles_eq)
  have 3: "elements (snd (getSortedFiles mem)) (FilesAnalyzed (result (snd (getSortedFiles mem))))
           = elements mem (FilesAnalyzed (result mem))"
    using untouched_getSortedFiles assms by (rule elements_untouched)
  from 1 2 3 show ?thesis by blast
qed

theorem report_leaves_result_unchanged_witness:
  "allocated example_memory (FilesAnalyzed (result example_memory))
   \<and> (\<exists>report mem'.
         GenerateConsoleReport (\<lambda>key. key) ToLowerASCII
           [''naming'', ''comment'', ''complexity''] [''comment'', ''naming'', ''complexity'']
           None example_memory = Inr (report, mem')
       \<and> result mem' = result example_memory
       \<and> map FilePath (elements mem' (FilesAnalyzed (result mem')))
           = [''main.go'', ''pkg/report/report.go''])
   \<and> map FilePath
        (elements (snd (getSortedFiles example_memory)) (fst (getSortedFiles example_memory)))
        = [''pkg/report/report.go'', ''main.go'']"
proof -
  have h: "allocated example_memory (FilesAnalyzed (result example_memory))"
    by (simp add: allocated_def example_memory_def)
  have e: "map FilePath (elements example_memory (FilesAnalyzed (result example_memory)))
      = [''main.go'', ''pkg/report/report.go'']"
    by (simp add: elements_def example_memory_def example_files_def)
  from report_leaves_result_unchanged[OF h, of "\<lambda>key. key" ToLowerASCII
      "[''naming'', ''comment'', ''complexity'']" "[''comment'', ''naming'', ''complexity'']" None]
  obtain report mem' where
    "GenerateConsoleReport (\<lambda>key. key) ToLowerASCII
           [''naming'', ''comment'', ''complexity''] [''comment'', ''naming'', ''complexity'']
           None example_memory = Inr (report, mem')"
    "TotalFiles (result mem') = TotalFiles (result example_memory)"
    "TotalLines (result mem') = TotalLines (result example_memory)"
    "CodeQualityScore (result mem') = CodeQualityScore (result example_memory)"
    "Metrics (result mem') = Metrics (result example_memory)"
    "FilesAnalyzed (result mem') = FilesAnalyzed (result example_memory)"
    "elements mem' (FilesAnalyzed (result mem'))
       = elements example_memory (FilesAnalyzed (result example_memory))"
    by blast
  then have "\<exists>report mem'.
         GenerateConsoleReport (\<lambda>key. key) ToLowerASCII
           [''naming'', ''comment'', ''complexity''] [''comment'', ''naming'', ''complexity'']
           None example_memory = Inr (report, mem')
       \<and> result mem' = result example_memory
       \<and> map FilePath (elements mem' (FilesAnalyzed (result mem')))
           = [''main.go'', ''pkg/report/report.go'']"
    using e by (intro exI[of _ report] exI[of _ mem']) (simp add: AnalysisResult.equality)
  with h example_sorted_files show ?thesis by simp
qed

text \<open>
  Claim C7. An issue that contains none of the keywords (after \<open>ToLower\<close>) is counted
  under \<open>other\<close>: the loop body increments that counter, and the count
  \<open>categorizeIssues\<close> returns under \<open>other\<close> is the number of such issues. Every issue
  increments exactly one of the seven counters, and the counts add up to the number of
  issues, so none is dropped.
\<close>

theorem unmatched_issues_counted_as_other:
  "((\<forall>kw \<in> set categoryKeywords. \<not> Contains (ToLower issue) kw) \<longrightarrow>
      categorizeIssue ToLower m issue = increment m ''other'')
   \<and> categorizeIssues ToLower issues ''other'' =
       (if countUnmatched ToLower issues = 0 then None
        else Some (int (countUnmatched ToLower issues)))
   \<and> (\<forall>issue'. \<exists>k \<in> set categoryOrder. \<forall>m' key.
         (categorizeIssue ToLower m' issue' = increment m' key) = (key = k))
   \<and> (\<Sum>key \<in> dom (categorizeIssues ToLower issues). the (categorizeIssues ToLower issues key))
       = int (length issues)"
proof (intro conjI impI allI)
  assume "\<forall>kw \<in> set categoryKeywords. \<not> Contains (ToLower issue) kw"
  then show "categorizeIssue ToLower m issue = increment m ''other''" by (rule unmatched_step)
next
  show "categorizeIssues ToLower issues ''other'' =
       (if countUnmatched ToLower issues = 0 then None
        else Some (int (countUnmatched ToLower issues)))"
    using categorizeIssues_count[of ToLower issues "''other''"] by (simp add: countShown_other)
next
  fix issue'
  show "\<exists>k \<in> set categoryOrder. \<forall>m' key.
         (categorizeIssue ToLower m' issue' = increment m' key) = (key = k)"
    by (rule one_category)
next
  show "(\<Sum>key \<in> dom (categorizeIssues ToLower issues). the (categorizeIssues ToLower issues key))
       = int (length issues)"
    using categorizeIssues_total[of ToLower issues] by (simp add: total_def)
qed

theorem unmatched_issues_counted_as_other_witness:
  "\<not> (\<exists>kw \<in> set categoryKeywords. Contains (ToLowerASCII ''Function Foo is too LONG'') kw)
   \<and> categorizeIssue ToLowerASCII initialCategories ''Function Foo is too LONG'' ''other'' = Some 1
   \<and> categorizeIssues ToLowerASCII [''Function Foo is too LONG'', ''Bad Name: x''] ''other'' = Some 1"
  using unmatched_issues_counted_as_other[of ToLowerASCII "''Function Foo is too LONG''"
      initialCategories "[''Function Foo is too LONG'', ''Bad Name: x'']"]
  by (simp add: categoryKeywords_def ToLowerASCII_def lowerByte_def increment_def
      initialCategories_def countUnmatched_def)

text \<open>
  Claim C8. \<open>getSortedMetrics\<close> returns exactly the values of the map \<open>Metrics\<close>, each
  once, with the scores in non-decreasing order, whatever the order in which the map
  is ranged over; the slice that \<open>getSortedFiles\<close> returns holds a permutation of the
  elements of \<open>FilesAnalyzed\<close> with the file scores in non-increasing order.
\<close>

theorem presentation_order:
  assumes "range_order (Metrics r) order"
  shows "mset (getSortedMetrics r order)
           = image_mset (\<lambda>name. the (Metrics r name)) (mset_set (dom (Metrics r)))
       \<and> sorted_wrt (\<lambda>a b. Score a \<le> Score b) (getSortedMetrics r order)
       \<and> mset (elements (snd (getSortedFiles mem)) (fst (getSortedFiles mem)))
           = mset (elements mem (FilesAnalyzed (result mem)))
       \<and> sorted_wrt (\<lambda>a b. FileScore a \<ge> FileScore b)
           (elements (snd (getSortedFiles mem)) (fst (getSortedFiles mem)))"
  using mset_getSortedMetrics[OF assms] sorted_getSortedMetrics[of r order]
    sorted_by_FileScore[of "elements mem (FilesAnalyzed (result mem))"]
  by (simp add: elements_getSortedFiles mset_insertionSort)

theorem presentation_order_witness:
  "range_order (Metrics (result example_memory)) [''naming'', ''comment'', ''complexity'']
   \<and> sorted_wrt (\<lambda>a b. Score a \<le> Score b)
        (getSortedMetrics (result example_memory) [''naming'', ''comment'', ''complexity''])
   \<and> map Name (getSortedMetrics (result example_memory) [''naming'', ''comment'', ''complexity''])
        = [''complexity'', ''comment'', ''naming'']
   \<and> map FilePath
        (elements (snd (getSortedFiles example_memory)) (fst (getSortedFiles example_memory)))
        = [''pkg/report/report.go'', ''main.go'']"
proof -
  have h: "range_order (Metrics (result example_memory)) [''naming'', ''comment'', ''complexity'']"
    by (auto simp: range_order_def example_memory_def example_metrics_def)
  from presentation_order[OF h, of example_memory] h example_sorted_metrics example_sorted_files
  show ?thesis by simp
qed

text \<open>
  Claim C9. The map \<open>categorizeIssues\<close> returns has its keys among the seven category
  names, every count in it is at least 1, and its counts add up to the length of the
  list of issues.
\<close>

theorem categorizeIssues_invariants:
  "dom (categorizeIssues ToLower issues)
     \<subseteq> {''complexity'', ''comment'', ''naming'', ''structure'', ''duplication'', ''error'', ''other''}
   \<and> (\<forall>key cnt. categorizeIssues ToLower issues key = Some cnt \<longrightarrow> 1 \<le> cnt)
   \<and> (\<Sum>key \<in> dom (categorizeIssues ToLower issues). the (categorizeIssues ToLower issues key))
       = int (length issues)"
proof (intro conjI allI impI)
  show "dom (categorizeIssues ToLower issues)
     \<subseteq> {''complexity'', ''comment'', ''naming'', ''structure'', ''duplication'', ''error'', ''other''}"
    using categorizeIssues_dom[of ToLower issues] by (simp add: set_categoryOrder)
next
  fix key cnt
  assume "categorizeIssues ToLower issues key = Some cnt"
  then show "1 \<le> cnt" by (rule categorizeIssues_positive)
next
  show "(\<Sum>key \<in> dom (categorizeIssues ToLower issues). the (categorizeIssues ToLower issues key))
       = int (length issues)"
    using categorizeIssues_total[of ToLower issues] by (simp add: total_def)
qed

theorem categorizeIssues_invariants_witness:
  "categorizeIssues ToLowerASCII
     [''Cyclomatic Complexity of f is 17'', ''Function Foo is too LONG'', ''Bad Name: x'',
      ''unchecked ERROR in g''] ''naming'' = Some 1
   \<and> (1::int) \<le> 1
   \<and> (\<Sum>key \<in> {''complexity'', ''other'', ''naming'', ''error''}.
        the (categorizeIssues ToLowerASCII
     [''Cyclomatic Complexity of f is 17'', ''Function Foo is too LONG'', ''Bad Name: x'',
      ''unchecked ERROR in g''] key)) = 4"
  using categorizeIssues_invariants[of ToLowerASCII "[''Cyclomatic Complexity of f is 17'', ''Function Foo is too LONG'', ''Bad Name: x'',
      ''unchecked ERROR in g'']"]
  by (simp add: example_counts)

text \<open>
  Claim C10 as it is stated: for every score in \<open>[0,1]\<close> the key is \<open>score.comment.R\<close>
  with \<open>R = min 90 (\<lfloor>100 * score\<rfloor> div 10 * 10)\<close>. It fails where the product is taken
  exactly: the code multiplies floats, and at the float64 value of 0.3, which is a
  little less than 0.3, the product rounds to 30, so the code returns the key
  \<open>score.comment.30\<close>, while the exact product is less than 30 and the formula gives
  20.
\<close>

theorem getScoreComment_exact_product_counterexample:
  "is_float64 (5404319552844595 / 18014398509481984)
   \<and> (0::real) \<le> 5404319552844595 / 18014398509481984
   \<and> (5404319552844595 / 18014398509481984 :: real) \<le> 1
   \<and> getScoreComment (\<lambda>key. key) (5404319552844595 / 18014398509481984) = ''score.comment.30''
   \<and> min 90 (\<lfloor>100 * (5404319552844595 / 18014398509481984 :: real)\<rfloor> div 10 * 10) = 20
   \<and> ''score.comment.'' @
        formatInt (min 90 (\<lfloor>100 * (5404319552844595 / 18014398509481984 :: real)\<rfloor> div 10 * 10))
       = ''score.comment.20''"
  using float64_three_tenths
  by (simp add: getScoreComment_def scale_1 truncate_int_def formatInt_def formatNat.simps
      digit_def signed_divide_int_def)

text \<open>
  Claim C10, amended. For every score in \<open>[0,1]\<close>, \<open>getScoreComment\<close> returns the
  translation of
  the key \<open>score.comment.R\<close> with \<open>R = min 90 (\<lfloor>p\<rfloor> div 10 * 10)\<close>, where \<open>p\<close> is the
  float64 product of the score and 100 (the exact product rounded to the nearest
  float64), and \<open>R\<close> is one of 0, 10, ..., 90.
\<close>

theorem getScoreComment_float64_key:
  assumes "0 \<le> score" "score \<le> 1"
  shows "getScoreComment Translate score =
           Translate (''score.comment.'' @ formatInt (min 90 (\<lfloor>mul64 score 100\<rfloor> div 10 * 10)))
       \<and> min 90 (\<lfloor>mul64 score 100\<rfloor> div 10 * 10) \<in> {0, 10, 20, 30, 40, 50, 60, 70, 80, 90}"
proof -
  let ?k = "\<lfloor>mul64 score 100\<rfloor>"
  have "0 \<le> score * 100" "score * 100 \<le> 100" using assms by simp_all
  then have p: "0 \<le> mul64 score 100" "mul64 score 100 \<le> 100"
    using round_float64_range[of "score * 100"] by (simp_all add: mul64_def)
  then have k: "0 \<le> ?k" "?k \<le> 100" by (simp_all add: floor_le_iff)
  have t: "truncate_int (mul64 score 100) = ?k"
    using p by (simp add: truncate_int_def)
  have d: "?k sdiv 10 = ?k div 10"
    using k by (simp add: signed_divide_int_def sgn_if)
  have "(if ?k div 10 * 10 > 90 then 90 else ?k div 10 * 10) = min 90 (?k div 10 * 10)"
    by (simp add: min_def)
  then have "getScoreComment Translate score =
      Translate (''score.comment.'' @ formatInt (min 90 (?k div 10 * 10)))"
    by (simp add: getScoreComment_def Let_def t d)
  moreover have "min 90 (?k div 10 * 10) \<in> {0, 10, 20, 30, 40, 50, 60, 70, 80, 90}"
    using k by (rule scoreRange_values)
  ultimately show ?thesis by simp
qed

theorem getScoreComment_float64_key_witness:
  "(0::real) \<le> 5404319552844595 / 18014398509481984
   \<and> (5404319552844595 / 18014398509481984 :: real) \<le> 1
   \<and> mul64 (5404319552844595 / 18014398509481984) 100 = 30
   \<and> getScoreComment (\<lambda>key. key) (5404319552844595 / 18014398509481984) = ''score.comment.30''"
  using getScoreComment_float64_key[of "5404319552844595 / 18014398509481984" "\<lambda>key. key"]
  by (simp add: scale_1 formatInt_def formatNat.simps digit_def)

end
